theory Spec2Isabelle
  imports Complex_Main "HOL-Library.Word"
begin

section \<open>Data model\<close>

text \<open>
  A shallow embedding of \<^verbatim>\<open>src/latticelm.h\<close> (class \<^verbatim>\<open>LatticeLM\<close>).

  \<^item> \<^verbatim>\<open>unsigned\<close> is a 32-bit word: \<open>+\<close> and \<open>-\<close> wrap, \<open>div\<close> and \<open>mod\<close> are the
    unsigned operations, \<open>sint\<close> is the conversion to \<^verbatim>\<open>int\<close>.
  \<^item> \<^verbatim>\<open>WordId\<close> and \<^verbatim>\<open>CharId\<close> (declared in a header that is not part of the
    sources at hand) are signed integers: the code compares a \<^verbatim>\<open>WordId\<close> with \<open>-1\<close>.
  \<^item> \<^verbatim>\<open>double\<close> is modelled by \<open>real\<close>; rounding is not modelled.
  \<^item> A pointer is an \<open>option\<close>: \<open>None\<close> is the null pointer.
\<close>

type_synonym WordId = int
type_synonym CharId = int
type_synonym LMProb = real
type_synonym unsigned = "32 word"

subsection \<open>Weighted transducers (the part of OpenFst's VectorFst the code uses)\<close>

record arc =
  ilabel :: int
  olabel :: int
  weight :: real
  nextstate :: int

text \<open>\<open>final_weight = None\<close> is the semiring zero: the state is not final.\<close>

record fst_state =
  final_weight :: "real option"
  arcs :: "arc list"

text \<open>\<open>start_state = -1\<close> is \<^verbatim>\<open>kNoStateId\<close>.\<close>

record vfst =
  start_state :: int
  states :: "fst_state list"

definition new_fst :: vfst where
  "new_fst = \<lparr>start_state = -1, states = []\<rparr>"

definition AddState :: "vfst \<Rightarrow> vfst" where
  "AddState f = f\<lparr>states := states f @ [\<lparr>final_weight = None, arcs = []\<rparr>]\<rparr>"

definition SetStart :: "int \<Rightarrow> vfst \<Rightarrow> vfst" where
  "SetStart s f = f\<lparr>start_state := s\<rparr>"

definition AddArc :: "int \<Rightarrow> arc \<Rightarrow> vfst \<Rightarrow> vfst" where
  "AddArc s a f =
     f\<lparr>states := (states f)[nat s := (states f ! nat s)\<lparr>arcs := arcs (states f ! nat s) @ [a]\<rparr>]\<rparr>"

definition SetFinal :: "int \<Rightarrow> real \<Rightarrow> vfst \<Rightarrow> vfst" where
  "SetFinal s w f = f\<lparr>states := (states f)[nat s := (states f ! nat s)\<lparr>final_weight := Some w\<rparr>]\<rparr>"

definition NumStates :: "vfst \<Rightarrow> nat" where
  "NumStates f = length (states f)"

subsection \<open>Process outcome and observable output\<close>

text \<open>
  Modelled from the spec: the macro \<^verbatim>\<open>THROW_ERROR\<close> is defined in a header that is not
  among the sources. The specification says that the sampler aborts with a diagnostic
  there, so \<^verbatim>\<open>THROW_ERROR(m)\<close> ends the call with the message \<open>m\<close>: the value \<open>Throw m\<close>.

  How a call can end other than by returning: \<open>Exit c\<close> is \<^verbatim>\<open>exit(c)\<close>, \<open>Throw m\<close> is
  the exception of \<^verbatim>\<open>THROW_ERROR(m)\<close>, \<open>Undefined\<close> is C++ undefined behaviour (an index
  out of range, a null pointer read, an integer division by zero) and \<open>Diverges\<close> is a
  loop that never ends.  A failing call returns \<open>Inl (e, st)\<close> with the state at the
  point of failure.
\<close>

datatype error = Exit int | Throw string | Undefined | Diverges

text \<open>What is inserted into \<^verbatim>\<open>cerr\<close>, one item per \<^verbatim>\<open><<\<close>.\<close>

datatype item = Str string | Num int | Dbl real | Endl

datatype content = FstFile vfst | TextFile string

datatype lm = Known | Unk

text \<open>
  The calls that leave the class, in program order, with their arguments:
  the calls on the two language models that can change them (\<open>CalcSentence\<close> also holds
  the value returned), the library calls of the sampler (\<open>MapWeights\<close> holds the scale of
  the mapper and the index of the sequence, \<open>Prune\<close> the beam, \<open>SampleGen\<close> the transducer
  that is sampled from) and the files written.
\<close>

datatype event =
    RemoveCustomers lm "int list"
  | CalcSentence lm "int list" "LMProb list" bool LMProb
  | Trim lm bool
  | SampleParameters lm
  | ReadFst string
  | MapWeights real nat
  | Prune real
  | SampleGen vfst nat real
  | ParseSample
  | WriteFile string content

subsection \<open>The object and the process state\<close>

record ('p, 'l, 'g) latticelm =
  numBurnIn :: unsigned
  numAnnealSteps :: unsigned
  annealStepLength :: unsigned
  numSamples :: unsigned
  sampleRate :: unsigned
  trimRate :: unsigned
  pruneThreshold :: real
  amScale :: real
  knownN :: unsigned
  unkN :: unsigned
  inputFileList :: "string option"
  inputFiles :: "string list"
  inputType :: unsigned
  cacheInput :: bool
  inputFsts :: "vfst option list"
  symbolFile :: "string option"
  prefix :: string
  separator :: string
  mySamples :: "nat list"
  histories :: "WordId list list"
  unkSymbolSize :: unsigned
  annealLevel :: real
  lexFst :: "'l option"
  knownLm :: "'p option"
  unkLm :: "'p option"
  unkBases :: "LMProb list"
  latticeLikelihood :: real
  knownLikelihood :: real
  unkLikelihood :: real
  cerr :: "item list"
  trace :: "event list"
  world :: 'g

definition INPUT_TEXT :: unsigned where "INPUT_TEXT = 1"

text \<open>
  The classes and functions the header uses and does not define, passed as a parameter:
  \<open>'p\<close> is a \<^verbatim>\<open>PyLM\<close>, \<open>'l\<close> a \<^verbatim>\<open>LexFst\<close>, \<open>'g\<close> the state of the process outside
  the object (the random number generator, the clock).  Calls that draw random numbers
  take and return \<open>'g\<close>.  \<open>fst_Read\<close> reads a file and so depends on what was written
  before.  All of them are taken to return.
\<close>

record ('p, 'l, 'g) lib =
  pylm_new :: "unsigned \<Rightarrow> 'p"
  pylm_removeCustomers :: "int list \<Rightarrow> 'p \<Rightarrow> 'g \<Rightarrow> 'p \<times> 'g"
  pylm_calcSentence :: "int list \<Rightarrow> LMProb list \<Rightarrow> bool \<Rightarrow> 'p \<Rightarrow> 'g \<Rightarrow> LMProb \<times> 'p \<times> 'g"
  pylm_getBasePositions :: "'p \<Rightarrow> int list"
  pylm_trim :: "bool \<Rightarrow> 'p \<Rightarrow> WordId list \<times> 'p"
  pylm_sampleParameters :: "'p \<Rightarrow> 'g \<Rightarrow> 'p \<times> 'g"
  pylm_getVocabSize :: "'p \<Rightarrow> int"
  pylm_size :: "'p \<Rightarrow> int"
  pylm_getN :: "'p \<Rightarrow> int"
  pylm_getStrength :: "'p \<Rightarrow> int \<Rightarrow> real"
  pylm_getDiscount :: "'p \<Rightarrow> int \<Rightarrow> real"
  pylm_print :: "'p \<Rightarrow> string list \<Rightarrow> LMProb list \<Rightarrow> string"
  lex_new :: "'l"
  lex_setSeparator :: "string \<Rightarrow> 'l \<Rightarrow> 'l"
  lex_load :: "string \<Rightarrow> 'l \<Rightarrow> 'l"
  lex_setPermSymbols :: "string list \<Rightarrow> 'l \<Rightarrow> 'l"
  lex_initializeArcs :: "'l \<Rightarrow> 'l"
  lex_getNumChars :: "'l \<Rightarrow> unsigned"
  lex_getWords :: "'l \<Rightarrow> CharId list list"
  lex_getSymbols :: "'l \<Rightarrow> string list"
  lex_getPermSymbols :: "'l \<Rightarrow> string list"
  lex_addWord :: "CharId list \<Rightarrow> 'l \<Rightarrow> 'l"
  lex_parseSample :: "vfst \<Rightarrow> 'l \<Rightarrow> WordId list \<times> 'l"
  lex_fst :: "'l \<Rightarrow> vfst"
  fst_Compose :: "vfst \<Rightarrow> vfst \<Rightarrow> vfst"
  fst_PylmFst :: "'p \<Rightarrow> 'p \<Rightarrow> unsigned \<Rightarrow> vfst"
  fst_ComposePhi :: "vfst \<Rightarrow> vfst \<Rightarrow> vfst"
  fst_Prune :: "vfst \<Rightarrow> real \<Rightarrow> vfst"
  fst_Read :: "event list \<Rightarrow> string \<Rightarrow> vfst option"
  fst_Map :: "real \<Rightarrow> vfst \<Rightarrow> vfst"
  fst_ArcSort :: "vfst \<Rightarrow> vfst"
  SampGen :: "vfst \<Rightarrow> nat \<Rightarrow> real \<Rightarrow> 'g \<Rightarrow> vfst \<times> 'g"
  atof :: "string \<Rightarrow> real"
  time_now :: "'g \<Rightarrow> int \<times> 'g"
  file_lines :: "string \<Rightarrow> string list option"

text \<open>\<^verbatim>\<open>v[i]\<close> on a vector: defined only inside the vector.\<close>

definition vec_at :: "'a list \<Rightarrow> int \<Rightarrow> 'a option" where
  "vec_at xs i = (if 0 \<le> i \<and> nat i < length xs then Some (xs ! nat i) else None)"

text \<open>\<^verbatim>\<open>v.resize(n, x)\<close>.\<close>

definition resize :: "nat \<Rightarrow> 'a \<Rightarrow> 'a list \<Rightarrow> 'a list" where
  "resize n x xs = take n xs @ replicate (n - length xs) x"

section \<open>The constructor\<close>

text \<open>
  The three likelihood members are not initialised by the constructor; \<^verbatim>\<open>train\<close> assigns
  them before they are read. The literal \<^verbatim>\<open>0.2\<close> is the real number \<open>2/10\<close> here.
\<close>

definition LatticeLM :: "'g \<Rightarrow> ('p, 'l, 'g) latticelm" where
  "LatticeLM g = \<lparr>
     numBurnIn = 20, numAnnealSteps = 5, annealStepLength = 3,
     numSamples = 100, sampleRate = 1, trimRate = 1,
     pruneThreshold = 0, amScale = 2 / 10, knownN = 3, unkN = 3,
     inputFileList = None, inputFiles = [], inputType = INPUT_TEXT,
     cacheInput = False, inputFsts = [], symbolFile = None,
     prefix = [], separator = [], mySamples = [], histories = [],
     unkSymbolSize = 0, annealLevel = 0,
     lexFst = None, knownLm = None, unkLm = None, unkBases = [],
     latticeLikelihood = 0, knownLikelihood = 0, unkLikelihood = 0,
     cerr = [], trace = [], world = g\<rparr>"

section \<open>Reading text input\<close>

text \<open>
  \<^verbatim>\<open>findId\<close>: the hash table is an association list in insertion order (a key is
  inserted only when it is absent, so its keys are distinct and \<open>length\<close> is
  \<^verbatim>\<open>size()\<close>).
\<close>

definition findId ::
  "string \<Rightarrow> (string \<times> CharId) list \<Rightarrow> string list
    \<Rightarrow> CharId \<times> (string \<times> CharId) list \<times> string list" where
  "findId str idHash idList =
     (case map_of idHash str of
        None \<Rightarrow> (int (length idHash + 1) - 1,
                 idHash @ [(str, int (length idHash))],
                 idList @ [CHR ''x'' # str])
      | Some v \<Rightarrow> (v, idHash, idList))"

text \<open>\<^verbatim>\<open>iss >> str\<close> until it fails: the maximal runs of non-space characters.\<close>

definition isspace :: "char \<Rightarrow> bool" where
  "isspace c = (let n = (of_char c :: nat) in n = 32 \<or> (9 \<le> n \<and> n \<le> 13))"

fun split_ws :: "string \<Rightarrow> string \<Rightarrow> string list" where
  "split_ws cur [] = (if cur = [] then [] else [cur])"
| "split_ws cur (c # cs) =
     (if isspace c then (if cur = [] then split_ws [] cs else cur # split_ws [] cs)
      else split_ws (cur @ [c]) cs)"

definition tokens :: "string \<Rightarrow> string list" where
  "tokens line = split_ws [] line"

text \<open>The loop over the tokens of one line (lines 174 to 178).\<close>

fun addTokens ::
  "string list \<Rightarrow> int \<Rightarrow> (string \<times> CharId) list \<Rightarrow> string list \<Rightarrow> vfst
    \<Rightarrow> int \<times> (string \<times> CharId) list \<times> string list \<times> vfst" where
  "addTokens [] state idHash idList f = (state, idHash, idList, f)"
| "addTokens (str # rest) state idHash idList f =
     (case findId str idHash idList of
        (lab, idHash', idList') \<Rightarrow>
          addTokens rest (state + 1) idHash' idList'
            (AddArc state \<lparr>ilabel = lab, olabel = lab, weight = 0, nextstate = state + 1\<rparr>
               (AddState f)))"

text \<open>The loop over the lines of one file (lines 169 to 186).\<close>

fun loadLines ::
  "string \<Rightarrow> string list \<Rightarrow> (string \<times> CharId) list \<Rightarrow> string list
    \<Rightarrow> ('p, 'l, 'g) latticelm
    \<Rightarrow> (error \<times> ('p, 'l, 'g) latticelm)
        + (((string \<times> CharId) list \<times> string list) \<times> ('p, 'l, 'g) latticelm)" where
  "loadLines file [] idHash idList st = Inr ((idHash, idList), st)"
| "loadLines file (line # lines) idHash idList st =
     (case addTokens (tokens line) 0 idHash idList (SetStart 0 (AddState new_fst)) of
        (state, idHash', idList', f) \<Rightarrow>
          (let f' = SetFinal state 0 f in
           if state = 0 then
             Inl (Exit 1, st\<lparr>cerr := cerr st @
                    [Str ''Empty line found in '', Str file, Endl,
                     Str ''Please ensure that each line in the training file contains at least one symbol.'',
                     Endl]\<rparr>)
           else loadLines file lines idHash' idList' (st\<lparr>inputFsts := inputFsts st @ [Some f']\<rparr>)))"

text \<open>The loop over the input files (lines 166 to 187). A file that cannot be opened has no line.\<close>

fun loadFiles ::
  "('p, 'l, 'g) lib \<Rightarrow> string list \<Rightarrow> (string \<times> CharId) list \<Rightarrow> string list
    \<Rightarrow> ('p, 'l, 'g) latticelm
    \<Rightarrow> (error \<times> ('p, 'l, 'g) latticelm)
        + (((string \<times> CharId) list \<times> string list) \<times> ('p, 'l, 'g) latticelm)" where
  "loadFiles lib [] idHash idList st = Inr ((idHash, idList), st)"
| "loadFiles lib (file # files) idHash idList st =
     (case loadLines file (case file_lines lib file of None \<Rightarrow> [] | Some ls \<Rightarrow> ls)
             idHash idList st of
        Inl e \<Rightarrow> Inl e
      | Inr ((idHash', idList'), st') \<Rightarrow> loadFiles lib files idHash' idList' st')"

definition loadText ::
  "('p, 'l, 'g) lib \<Rightarrow> ('p, 'l, 'g) latticelm
    \<Rightarrow> (error \<times> ('p, 'l, 'g) latticelm) + (string list \<times> ('p, 'l, 'g) latticelm)" where
  "loadText lib st =
     (case findId ''<eps>'' [] [] of
        (_, h1, l1) \<Rightarrow>
     (case findId ''<phi>'' h1 l1 of
        (_, h2, l2) \<Rightarrow>
     (case loadFiles lib (inputFiles st) h2 (l2 @ [''x<unk>'', ''x</unk>'']) st of
        Inl e \<Rightarrow> Inl e
      | Inr ((idHash, idList), st') \<Rightarrow> Inr (idList @ [''w<s>''], st'))))"

section \<open>Command line and configuration\<close>



text \<open>
  The C library's \<^verbatim>\<open>atoi\<close>: optional white space, an optional sign, then digits up to
  the first character that is none. The value is stored in an \<^verbatim>\<open>unsigned\<close>, so it is
  taken modulo \<open>2^32\<close>.
\<close>

definition isdigit :: "char \<Rightarrow> bool" where
  "isdigit c = (let n = (of_char c :: nat) in 48 \<le> n \<and> n \<le> 57)"

fun atoi_digits :: "string \<Rightarrow> int \<Rightarrow> int" where
  "atoi_digits [] acc = acc"
| "atoi_digits (c # cs) acc =
     (if isdigit c then atoi_digits cs (10 * acc + (of_char c - 48)) else acc)"

definition atoi :: "string \<Rightarrow> int" where
  "atoi s =
     (case dropWhile isspace s of
        [] \<Rightarrow> 0
      | c # cs \<Rightarrow>
          if c = CHR ''-'' then - atoi_digits cs 0
          else if c = CHR ''+'' then atoi_digits cs 0
          else atoi_digits (c # cs) 0)"













section \<open>Sampling one sequence\<close>

text \<open>Calls on the language models through \<^verbatim>\<open>knownLm_\<close> and \<^verbatim>\<open>unkLm_\<close>.\<close>

definition getLm :: "lm \<Rightarrow> ('p, 'l, 'g) latticelm \<Rightarrow> 'p option" where
  "getLm m st = (case m of Known \<Rightarrow> knownLm st | Unk \<Rightarrow> unkLm st)"

definition setLm :: "lm \<Rightarrow> 'p \<Rightarrow> ('p, 'l, 'g) latticelm \<Rightarrow> ('p, 'l, 'g) latticelm" where
  "setLm m p st = (case m of Known \<Rightarrow> st\<lparr>knownLm := Some p\<rparr> | Unk \<Rightarrow> st\<lparr>unkLm := Some p\<rparr>)"

definition removeCustomers ::
  "('p, 'l, 'g) lib \<Rightarrow> lm \<Rightarrow> int list \<Rightarrow> ('p, 'l, 'g) latticelm
    \<Rightarrow> (error \<times> ('p, 'l, 'g) latticelm) + ('p, 'l, 'g) latticelm" where
  "removeCustomers lib m ws st =
     (case getLm m st of
        None \<Rightarrow> Inl (Undefined, st)
      | Some p \<Rightarrow>
          (case pylm_removeCustomers lib ws p (world st) of
             (p', g) \<Rightarrow>
               Inr (setLm m p' (st\<lparr>world := g, trace := trace st @ [RemoveCustomers m ws]\<rparr>))))"

definition calcSentence ::
  "('p, 'l, 'g) lib \<Rightarrow> lm \<Rightarrow> int list \<Rightarrow> LMProb list \<Rightarrow> bool \<Rightarrow> ('p, 'l, 'g) latticelm
    \<Rightarrow> (error \<times> ('p, 'l, 'g) latticelm) + (LMProb \<times> ('p, 'l, 'g) latticelm)" where
  "calcSentence lib m ws bases doAdd st =
     (case getLm m st of
        None \<Rightarrow> Inl (Undefined, st)
      | Some p \<Rightarrow>
          (case pylm_calcSentence lib ws bases doAdd p (world st) of
             (pr, p', g) \<Rightarrow>
               Inr (pr, setLm m p'
                      (st\<lparr>world := g, trace := trace st @ [CalcSentence m ws bases doAdd pr]\<rparr>))))"

text \<open>\<^verbatim>\<open>removeSample\<close>: the loop of lines 456 and 457, then the function.\<close>

fun removeSpellings ::
  "('p, 'l, 'g) lib \<Rightarrow> CharId list list \<Rightarrow> WordId list \<Rightarrow> int list \<Rightarrow> ('p, 'l, 'g) latticelm
    \<Rightarrow> (error \<times> ('p, 'l, 'g) latticelm) + ('p, 'l, 'g) latticelm" where
  "removeSpellings lib knownWords h [] st = Inr st"
| "removeSpellings lib knownWords h (pos # rest) st =
     (case vec_at h pos of
        None \<Rightarrow> Inl (Undefined, st)
      | Some w \<Rightarrow>
          (case vec_at knownWords w of
             None \<Rightarrow> Inl (Undefined, st)
           | Some spelling \<Rightarrow>
               (case removeCustomers lib Unk spelling st of
                  Inl e \<Rightarrow> Inl e
                | Inr st' \<Rightarrow> removeSpellings lib knownWords h rest st')))"

definition removeSample ::
  "('p, 'l, 'g) lib \<Rightarrow> nat \<Rightarrow> ('p, 'l, 'g) latticelm
    \<Rightarrow> (error \<times> ('p, 'l, 'g) latticelm) + ('p, 'l, 'g) latticelm" where
  "removeSample lib sentId st =
     (case vec_at (histories st) (int sentId) of
        None \<Rightarrow> Inl (Undefined, st)
      | Some h \<Rightarrow>
          (case removeCustomers lib Known h st of
             Inl e \<Rightarrow> Inl e
           | Inr st1 \<Rightarrow>
               (case knownLm st1 of
                  None \<Rightarrow> Inl (Undefined, st1)
                | Some k \<Rightarrow>
                    (case lexFst st1 of
                       None \<Rightarrow> Inl (Undefined, st1)
                     | Some lx \<Rightarrow>
                         removeSpellings lib (lex_getWords lib lx) h
                           (pylm_getBasePositions lib k) st1))))"

text \<open>\<^verbatim>\<open>addSample\<close>: the loop of lines 466 and 467, the loop of lines 471 and 472, the function.\<close>

fun spellingBases ::
  "('p, 'l, 'g) lib \<Rightarrow> CharId list list \<Rightarrow> WordId list \<Rightarrow> ('p, 'l, 'g) latticelm
    \<Rightarrow> (error \<times> ('p, 'l, 'g) latticelm) + (LMProb list \<times> ('p, 'l, 'g) latticelm)" where
  "spellingBases lib knownWords [] st = Inr ([], st)"
| "spellingBases lib knownWords (w # rest) st =
     (case vec_at knownWords w of
        None \<Rightarrow> Inl (Undefined, st)
      | Some spelling \<Rightarrow>
          (case calcSentence lib Unk spelling (unkBases st) False st of
             Inl e \<Rightarrow> Inl e
           | Inr (pr, st') \<Rightarrow>
               (case spellingBases lib knownWords rest st' of
                  Inl e \<Rightarrow> Inl e
                | Inr (bases, st'') \<Rightarrow> Inr (exp pr # bases, st''))))"

fun addSpellings ::
  "('p, 'l, 'g) lib \<Rightarrow> CharId list list \<Rightarrow> WordId list \<Rightarrow> int list \<Rightarrow> ('p, 'l, 'g) latticelm
    \<Rightarrow> (error \<times> ('p, 'l, 'g) latticelm) + ('p, 'l, 'g) latticelm" where
  "addSpellings lib knownWords ws [] st = Inr st"
| "addSpellings lib knownWords ws (pos # rest) st =
     (case vec_at ws pos of
        None \<Rightarrow> Inl (Undefined, st)
      | Some w \<Rightarrow>
          (case vec_at knownWords w of
             None \<Rightarrow> Inl (Undefined, st)
           | Some spelling \<Rightarrow>
               (case calcSentence lib Unk spelling (unkBases st) True st of
                  Inl e \<Rightarrow> Inl e
                | Inr (pr, st') \<Rightarrow>
                    addSpellings lib knownWords ws rest
                      (st'\<lparr>unkLikelihood := unkLikelihood st' - pr\<rparr>))))"

definition addSample ::
  "('p, 'l, 'g) lib \<Rightarrow> nat \<Rightarrow> ('p, 'l, 'g) latticelm
    \<Rightarrow> (error \<times> ('p, 'l, 'g) latticelm) + ('p, 'l, 'g) latticelm" where
  "addSample lib sentId st =
     (case vec_at (histories st) (int sentId) of
        None \<Rightarrow> Inl (Undefined, st)
      | Some ws \<Rightarrow>
          (case lexFst st of
             None \<Rightarrow> Inl (Undefined, st)
           | Some lx \<Rightarrow>
               (case spellingBases lib (lex_getWords lib lx) ws st of
                  Inl e \<Rightarrow> Inl e
                | Inr (knownBases, st1) \<Rightarrow>
                    (case calcSentence lib Known ws knownBases True st1 of
                       Inl e \<Rightarrow> Inl e
                     | Inr (pr, st2) \<Rightarrow>
                         (let st3 = st2\<lparr>knownLikelihood := knownLikelihood st2 - pr\<rparr>
                          in case knownLm st3 of
                               None \<Rightarrow> Inl (Undefined, st3)
                             | Some k \<Rightarrow>
                                 addSpellings lib (lex_getWords lib lx) ws
                                   (pylm_getBasePositions lib k) st3)))))"

text \<open>
  \<^verbatim>\<open>createInputFst\<close>. \<^verbatim>\<open>VectorFst::Read\<close> returns the null pointer when it fails, and the
  code reads through it.
\<close>

definition createInputFst ::
  "('p, 'l, 'g) lib \<Rightarrow> nat \<Rightarrow> ('p, 'l, 'g) latticelm
    \<Rightarrow> (error \<times> ('p, 'l, 'g) latticelm) + (vfst \<times> ('p, 'l, 'g) latticelm)" where
  "createInputFst lib sentId st =
     (case (if cacheInput st \<and> length (inputFsts st) > sentId then inputFsts st ! sentId
            else None) of
        Some f \<Rightarrow> Inr (f, st)
      | None \<Rightarrow>
          (case vec_at (inputFiles st) (int sentId) of
             None \<Rightarrow> Inl (Undefined, st)
           | Some name \<Rightarrow>
               (let st1 = st\<lparr>trace := trace st @ [ReadFst name]\<rparr>
                in case fst_Read lib (trace st) name of
                     None \<Rightarrow> Inl (Undefined, st1)
                   | Some nextFst \<Rightarrow>
                       (let ret = fst_ArcSort lib (fst_Map lib (amScale st1) nextFst);
                            st2 = st1\<lparr>trace := trace st1 @ [MapWeights (amScale st1) sentId]\<rparr>;
                            st3 = (if cacheInput st2 then
                                     st2\<lparr>inputFsts :=
                                           (if length (inputFsts st2) \<le> sentId
                                            then resize (sentId + 1) None (inputFsts st2)
                                            else inputFsts st2)[sentId := Some ret]\<rparr>
                                   else st2)
                        in Inr (ret, st3)))))"

text \<open>
  The loop of lines 442 to 448 follows the first arc of each state until a state has
  none. \<open>None\<close>: it never ends; \<open>Some None\<close>: it reads a state that is not there.
\<close>

partial_function (option) pathWeight :: "vfst \<Rightarrow> int \<Rightarrow> real \<Rightarrow> real option option" where
  "pathWeight f sid acc =
     (case vec_at (states f) sid of
        None \<Rightarrow> Some None
      | Some s \<Rightarrow>
          (case arcs s of
             [] \<Rightarrow> Some (Some acc)
           | a # _ \<Rightarrow> pathWeight f (nextstate a) (acc + weight a)))"

text \<open>
  \<^verbatim>\<open>singleSample\<close> in two parts. The second part (lines 422 to 448): the check of the
  pruned transducer, the sample, the new history and the likelihood.
\<close>

definition sampleFrom ::
  "('p, 'l, 'g) lib \<Rightarrow> nat \<Rightarrow> real \<Rightarrow> vfst \<Rightarrow> vfst \<Rightarrow> vfst \<Rightarrow> vfst \<Rightarrow> vfst
    \<Rightarrow> ('p, 'l, 'g) latticelm
    \<Rightarrow> (error \<times> ('p, 'l, 'g) latticelm) + ('p, 'l, 'g) latticelm" where
  "sampleFrom lib sentId level inputFst ilFst pylmFst ilpFst prunedFst st =
     (if NumStates prunedFst \<le> 1 then
        Inl (Throw (''Pruned FST has one or fewer states'' @ [CHR 0x0A]),
             st\<lparr>trace := trace st @
                   [WriteFile ''inputFst.fst'' (FstFile inputFst),
                    WriteFile ''ilFst.fst'' (FstFile ilFst),
                    WriteFile ''ilpFst.fst'' (FstFile ilpFst),
                    WriteFile ''pylmFst.fst'' (FstFile pylmFst)]\<rparr>)
      else
        (case lexFst st of None \<Rightarrow> Inl (Undefined, st) | Some lx \<Rightarrow>
        (case SampGen lib prunedFst 1 level (world st) of
           (sampledFst, g) \<Rightarrow>
        (case lex_parseSample lib sampledFst lx of
           (hist, lx') \<Rightarrow>
          (let st1 = st\<lparr>world := g, lexFst := Some lx',
                         histories := (histories st)[sentId := hist],
                         trace := trace st @ [SampleGen prunedFst 1 level, ParseSample]\<rparr>
           in case addSample lib sentId st1 of
                Inl e \<Rightarrow> Inl e
              | Inr st2 \<Rightarrow>
                  (case pathWeight sampledFst (start_state sampledFst)
                          (latticeLikelihood st2) of
                     None \<Rightarrow> Inl (Diverges, st2)
                   | Some None \<Rightarrow> Inl (Undefined, st2)
                   | Some (Some w) \<Rightarrow> Inr (st2\<lparr>latticeLikelihood := w\<rparr>)))))))"

text \<open>The first part (lines 403 to 421): the old sample is removed, the transducers are built and pruned.\<close>

definition singleSample ::
  "('p, 'l, 'g) lib \<Rightarrow> nat \<Rightarrow> real \<Rightarrow> ('p, 'l, 'g) latticelm
    \<Rightarrow> (error \<times> ('p, 'l, 'g) latticelm) + ('p, 'l, 'g) latticelm" where
  "singleSample lib sentId level st =
     (case vec_at (histories st) (int sentId) of
        None \<Rightarrow> Inl (Undefined, st)
      | Some h \<Rightarrow>
     (case (if length h \<noteq> 0 then removeSample lib sentId st else Inr st) of
        Inl e \<Rightarrow> Inl e
      | Inr st1 \<Rightarrow>
     (case createInputFst lib sentId st1 of
        Inl e \<Rightarrow> Inl e
      | Inr (inputFst, st2) \<Rightarrow>
     (case lexFst st2 of None \<Rightarrow> Inl (Undefined, st2) | Some lx \<Rightarrow>
     (case knownLm st2 of None \<Rightarrow> Inl (Undefined, st2) | Some k \<Rightarrow>
     (case unkLm st2 of None \<Rightarrow> Inl (Undefined, st2) | Some u \<Rightarrow>
       (let ilFst = fst_Compose lib inputFst (lex_fst lib lx);
            pylmFst = fst_PylmFst lib k u (unkSymbolSize st2);
            ilpFst = fst_ComposePhi lib ilFst pylmFst
        in if pruneThreshold st2 \<noteq> 0 then
             sampleFrom lib sentId level inputFst ilFst pylmFst ilpFst
               (fst_Prune lib ilpFst (pruneThreshold st2))
               (st2\<lparr>trace := trace st2 @ [Prune (pruneThreshold st2)]\<rparr>)
           else
             sampleFrom lib sentId level inputFst ilFst pylmFst ilpFst ilpFst st2)))))))"

text \<open>\<^verbatim>\<open>iterateSamples\<close>: the loop of lines 394 to 398, then the function.\<close>

fun sampleLoop ::
  "('p, 'l, 'g) lib \<Rightarrow> real \<Rightarrow> nat \<Rightarrow> nat list \<Rightarrow> nat \<Rightarrow> ('p, 'l, 'g) latticelm
    \<Rightarrow> (error \<times> ('p, 'l, 'g) latticelm) + ('p, 'l, 'g) latticelm" where
  "sampleLoop lib level step [] i st = Inr st"
| "sampleLoop lib level step (s # rest) i st =
     (case singleSample lib s level st of
        Inl e \<Rightarrow> Inl e
      | Inr st' \<Rightarrow>
          sampleLoop lib level step rest (i + 1)
            (if i mod step = step - 1
             then st'\<lparr>cerr := cerr st' @
                         [Str [if i div step mod 10 = 9 then CHR ''!'' else CHR ''.'']]\<rparr>
             else st'))"

definition iterateSamples ::
  "('p, 'l, 'g) lib \<Rightarrow> real \<Rightarrow> ('p, 'l, 'g) latticelm
    \<Rightarrow> (error \<times> ('p, 'l, 'g) latticelm) + ('p, 'l, 'g) latticelm" where
  "iterateSamples lib level st =
     (let step = length (mySamples st) div 100 + 1;
          st1 = st\<lparr>cerr := cerr st @
                  [Str ''Running on '', Num (int (length (inputFsts st))),
                   Str ('' sequences ('' @ [CHR 0x22] @ ''.'' @ [CHR 0x22] @ ''=''),
                   Num (int step),
                   Str ('' sequences, '' @ [CHR 0x22] @ ''!'' @ [CHR 0x22] @ ''=''),
                   Num (int (step * 10)), Str '' sequences)'', Endl]\<rparr>
      in case time_now lib (world st1) of
           (start, g) \<Rightarrow>
             (case sampleLoop lib level step (mySamples st1) 0 (st1\<lparr>world := g\<rparr>) of
                Inl e \<Rightarrow> Inl e
              | Inr st2 \<Rightarrow>
                  (case time_now lib (world st2) of
                     (now, g') \<Rightarrow>
                       Inr (st2\<lparr>world := g',
                                cerr := cerr st2 @
                                  [Str '' '', Num (now - start), Str '' seconds'', Endl]\<rparr>))))"

section \<open>Trimming\<close>

text \<open>The loop of lines 342 to 345, from index \<open>i\<close> on; \<open>None\<close> is a read outside \<^verbatim>\<open>trimmedIds\<close>.\<close>

function keepWords ::
  "('p, 'l, 'g) lib \<Rightarrow> WordId list \<Rightarrow> CharId list list \<Rightarrow> nat \<Rightarrow> 'l \<Rightarrow> 'l option" where
  "keepWords lib trimmedIds knownWords i nextLex =
     (if i < length knownWords then
        (case vec_at trimmedIds (int i) of
           None \<Rightarrow> None
         | Some t \<Rightarrow>
             keepWords lib trimmedIds knownWords (i + 1)
               (if t \<noteq> -1 then lex_addWord lib (knownWords ! i) nextLex else nextLex))
      else Some nextLex)"
  by pat_completeness auto
termination
  by (relation "measure (\<lambda>(lib, trimmedIds, knownWords, i, nextLex). length knownWords - i)") auto

declare keepWords.simps [simp del]

text \<open>The loops of lines 349 to 351: the inner one over \<open>j\<close>, the outer one over \<open>i\<close>.\<close>

function remapRow :: "WordId list \<Rightarrow> WordId list \<Rightarrow> nat \<Rightarrow> WordId list option" where
  "remapRow trimmedIds row j =
     (if j < length row then
        (case vec_at trimmedIds (row ! j) of
           None \<Rightarrow> None
         | Some t \<Rightarrow> remapRow trimmedIds (row[j := t]) (j + 1))
      else Some row)"
  by pat_completeness auto
termination
  by (relation "measure (\<lambda>(trimmedIds, row, j). length row - j)") auto

declare remapRow.simps [simp del]

function remapHistories ::
  "WordId list \<Rightarrow> WordId list list \<Rightarrow> nat \<Rightarrow> WordId list list option" where
  "remapHistories trimmedIds hs i =
     (if i < length hs then
        (case remapRow trimmedIds (hs ! i) 0 of
           None \<Rightarrow> None
         | Some row \<Rightarrow> remapHistories trimmedIds (hs[i := row]) (i + 1))
      else Some hs)"
  by pat_completeness auto
termination
  by (relation "measure (\<lambda>(trimmedIds, hs, i). length hs - i)") auto

declare remapHistories.simps [simp del]

definition trimModels ::
  "('p, 'l, 'g) lib \<Rightarrow> ('p, 'l, 'g) latticelm
    \<Rightarrow> (error \<times> ('p, 'l, 'g) latticelm) + ('p, 'l, 'g) latticelm" where
  "trimModels lib st =
     (case knownLm st of None \<Rightarrow> Inl (Undefined, st) | Some k \<Rightarrow>
     (case pylm_trim lib True k of
        (trimmedIds, k') \<Rightarrow>
       (let st1 = st\<lparr>knownLm := Some k', trace := trace st @ [Trim Known True]\<rparr>
        in case unkLm st1 of None \<Rightarrow> Inl (Undefined, st1) | Some u \<Rightarrow>
          (let st2 = st1\<lparr>unkLm := Some (snd (pylm_trim lib False u)),
                         trace := trace st1 @ [Trim Unk False]\<rparr>
           in case lexFst st2 of None \<Rightarrow> Inl (Undefined, st2) | Some lx \<Rightarrow>
             (let knownWords = lex_getWords lib lx;
                  nextLex = lex_initializeArcs lib
                              (lex_setPermSymbols lib (lex_getPermSymbols lib lx)
                                 (lex_setSeparator lib (separator st2) (lex_new lib)))
              in case keepWords lib trimmedIds knownWords 0 nextLex of
                   None \<Rightarrow> Inl (Undefined, st2)
                 | Some nextLex' \<Rightarrow>
                     (case remapHistories trimmedIds (histories st2) 0 of
                        None \<Rightarrow> Inl (Undefined, st2)
                      | Some hs \<Rightarrow> Inr (st2\<lparr>histories := hs, lexFst := Some nextLex'\<rparr>)))))))"

section \<open>Status and snapshots\<close>

definition printIterationStatus ::
  "('p, 'l, 'g) lib \<Rightarrow> unsigned \<Rightarrow> ('p, 'l, 'g) latticelm
    \<Rightarrow> (error \<times> ('p, 'l, 'g) latticelm) + ('p, 'l, 'g) latticelm" where
  "printIterationStatus lib iter st =
     (case knownLm st of None \<Rightarrow> Inl (Undefined, st) | Some k \<Rightarrow>
     (case unkLm st of None \<Rightarrow> Inl (Undefined, st) | Some u \<Rightarrow>
        Inr (st\<lparr>cerr := cerr st @
              [Str ''Finished iteration '', Num (uint iter),
               Str '' (Anneal='', Dbl (annealLevel st),
               Str ''), LM='', Dbl (knownLikelihood st + unkLikelihood st),
               Str '' (w='', Dbl (knownLikelihood st),
               Str '', u='', Dbl (unkLikelihood st),
               Str ''), Lattice='', Dbl (latticeLikelihood st), Endl,
               Str '' Vocabulary: w='', Num (pylm_getVocabSize lib k),
               Str '', u='', Num (pylm_getVocabSize lib u), Endl,
               Str '' LM size: w='', Num (pylm_size lib k),
               Str '', u='', Num (pylm_size lib u), Endl] @
              concat (map (\<lambda>i. [Str '' WLM '', Num (i + 1),
                                 Str ''-gram, s='', Dbl (pylm_getStrength lib k i),
                                 Str '', d='', Dbl (pylm_getDiscount lib k i), Endl])
                        (map int [0..<nat (pylm_getN lib k)])) @
              concat (map (\<lambda>i. [Str '' CLM '', Num (i + 1),
                                 Str ''-gram, s='', Dbl (pylm_getStrength lib u i),
                                 Str '', d='', Dbl (pylm_getDiscount lib u i), Endl])
                        (map int [0..<nat (pylm_getN lib u)]))\<rparr>)))"

definition sampleParameters ::
  "('p, 'l, 'g) lib \<Rightarrow> ('p, 'l, 'g) latticelm
    \<Rightarrow> (error \<times> ('p, 'l, 'g) latticelm) + ('p, 'l, 'g) latticelm" where
  "sampleParameters lib st =
     (case knownLm st of None \<Rightarrow> Inl (Undefined, st) | Some k \<Rightarrow>
     (case pylm_sampleParameters lib k (world st) of
        (k', g) \<Rightarrow>
       (let st1 = st\<lparr>knownLm := Some k', world := g,
                      trace := trace st @ [SampleParameters Known]\<rparr>
        in case unkLm st1 of None \<Rightarrow> Inl (Undefined, st1) | Some u \<Rightarrow>
          (case pylm_sampleParameters lib u (world st1) of
             (u', g') \<Rightarrow>
               Inr (st1\<lparr>unkLm := Some u', world := g',
                        trace := trace st1 @ [SampleParameters Unk]\<rparr>)))))"

text \<open>\<^verbatim>\<open>operator<<\<close> for an integer: decimal digits, with a minus sign below zero.\<close>

fun decimal :: "nat \<Rightarrow> string" where
  "decimal n =
     (if n < 10 then [''0123456789'' ! n]
      else decimal (n div 10) @ [''0123456789'' ! (n mod 10)])"

declare decimal.simps [simp del]

definition show_int :: "int \<Rightarrow> string" where
  "show_int i = (if i < 0 then CHR ''-'' # decimal (nat (- i)) else decimal (nat i))"

text \<open>
  The first lines of \<^verbatim>\<open>writeSymbols\<close>, \<^verbatim>\<open>writeLm\<close> and \<^verbatim>\<open>writeSamples\<close>, which differ in the
  default name only: the name of the file to write.
\<close>

definition outputName :: "string \<Rightarrow> string \<Rightarrow> int \<Rightarrow> ('p, 'l, 'g) latticelm \<Rightarrow> string" where
  "outputName dflt fileName iter st =
     (let fileName1 = (if length fileName = 0 then prefix st @ dflt else fileName)
      in if iter \<ge> 0 then fileName1 @ [CHR ''.''] @ show_int iter else fileName1)"

definition writeSymbols ::
  "('p, 'l, 'g) lib \<Rightarrow> string \<Rightarrow> int \<Rightarrow> ('p, 'l, 'g) latticelm
    \<Rightarrow> (error \<times> ('p, 'l, 'g) latticelm) + ('p, 'l, 'g) latticelm" where
  "writeSymbols lib fileName iter st =
     (let name = outputName ''sym'' fileName iter st;
          st1 = st\<lparr>cerr := cerr st @ [Str ''  Writing symbols to '', Str name, Endl]\<rparr>
      in case lexFst st1 of
           None \<Rightarrow> Inl (Undefined, st1)
         | Some lx \<Rightarrow>
             Inr (st1\<lparr>trace := trace st1 @
                   [WriteFile name
                      (TextFile (concat (map (\<lambda>(i, w). w @ [CHR 0x09] @ decimal i @ [CHR 0x0A])
                                           (enumerate 0 (lex_getSymbols lib lx)))))]\<rparr>))"

text \<open>
  A \<^verbatim>\<open>const string*\<close> into the symbol vector is the vector and an offset;
  the language model's \<^verbatim>\<open>print\<close> is handed what lies from the offset on.
\<close>

definition writeLm ::
  "('p, 'l, 'g) lib \<Rightarrow> lm \<Rightarrow> string list \<Rightarrow> nat \<Rightarrow> LMProb list \<Rightarrow> string \<Rightarrow> int
    \<Rightarrow> ('p, 'l, 'g) latticelm
    \<Rightarrow> (error \<times> ('p, 'l, 'g) latticelm) + ('p, 'l, 'g) latticelm" where
  "writeLm lib m symbols off bases fileName iter st =
     (let name = outputName ''lm'' fileName iter st;
          st1 = st\<lparr>cerr := cerr st @ [Str ''  Writing LM to '', Str name, Endl]\<rparr>
      in case getLm m st1 of
           None \<Rightarrow> Inl (Undefined, st1)
         | Some p \<Rightarrow>
             Inr (st1\<lparr>trace := trace st1 @
                   [WriteFile name (TextFile (pylm_print lib p (drop off symbols) bases))]\<rparr>))"

text \<open>
  The loop of lines 545 to 548 over one history, from index \<open>j\<close> on.
  \<^verbatim>\<open>substr(1)\<close> of the empty string throws.
\<close>

fun sampleRow :: "string list \<Rightarrow> nat \<Rightarrow> nat \<Rightarrow> WordId list \<Rightarrow> error + string" where
  "sampleRow symbols off j [] = Inr []"
| "sampleRow symbols off j (w # ws) =
     (case vec_at symbols (int off + w) of
        None \<Rightarrow> Inl Undefined
      | Some sy \<Rightarrow>
          if sy = [] then Inl (Throw ''basic_string::substr'')
          else (case sampleRow symbols off (j + 1) ws of
                  Inl e \<Rightarrow> Inl e
                | Inr r \<Rightarrow> Inr ((if j \<noteq> 0 then '' '' else []) @ tl sy @ r)))"

fun sampleRows :: "string list \<Rightarrow> nat \<Rightarrow> WordId list list \<Rightarrow> error + string" where
  "sampleRows symbols off [] = Inr []"
| "sampleRows symbols off (h # hs) =
     (case sampleRow symbols off 0 h of
        Inl e \<Rightarrow> Inl e
      | Inr r \<Rightarrow>
          (case sampleRows symbols off hs of
             Inl e \<Rightarrow> Inl e
           | Inr rs \<Rightarrow> Inr (r @ [CHR 0x0A] @ rs)))"

definition writeSamples ::
  "string list \<Rightarrow> nat \<Rightarrow> string \<Rightarrow> int \<Rightarrow> ('p, 'l, 'g) latticelm
    \<Rightarrow> (error \<times> ('p, 'l, 'g) latticelm) + ('p, 'l, 'g) latticelm" where
  "writeSamples symbols off fileName iter st =
     (let name = outputName ''samp'' fileName iter st;
          st1 = st\<lparr>cerr := cerr st @ [Str ''  Writing samples to '', Str name, Endl]\<rparr>
      in case sampleRows symbols off (histories st1) of
           Inl e \<Rightarrow> Inl (e, st1)
         | Inr body \<Rightarrow> Inr (st1\<lparr>trace := trace st1 @ [WriteFile name (TextFile body)]\<rparr>))"

text \<open>\<^verbatim>\<open>calculateWordBases\<close>: the loop of lines 498 and 499, then the function.\<close>

fun basesLoop ::
  "('p, 'l, 'g) lib \<Rightarrow> CharId list list \<Rightarrow> ('p, 'l, 'g) latticelm
    \<Rightarrow> (error \<times> ('p, 'l, 'g) latticelm) + (LMProb list \<times> ('p, 'l, 'g) latticelm)" where
  "basesLoop lib [] st = Inr ([], st)"
| "basesLoop lib (spelling # rest) st =
     (case calcSentence lib Unk spelling (unkBases st) False st of
        Inl e \<Rightarrow> Inl e
      | Inr (pr, st') \<Rightarrow>
          (case basesLoop lib rest st' of
             Inl e \<Rightarrow> Inl e
           | Inr (bases, st'') \<Rightarrow> Inr (exp pr # bases, st'')))"

definition calculateWordBases ::
  "('p, 'l, 'g) lib \<Rightarrow> ('p, 'l, 'g) latticelm
    \<Rightarrow> (error \<times> ('p, 'l, 'g) latticelm) + (LMProb list \<times> ('p, 'l, 'g) latticelm)" where
  "calculateWordBases lib st =
     (case lexFst st of
        None \<Rightarrow> Inl (Undefined, st)
      | Some lx \<Rightarrow> basesLoop lib (lex_getWords lib lx) st)"

definition printSample ::
  "('p, 'l, 'g) lib \<Rightarrow> int \<Rightarrow> ('p, 'l, 'g) latticelm
    \<Rightarrow> (error \<times> ('p, 'l, 'g) latticelm) + ('p, 'l, 'g) latticelm" where
  "printSample lib iter st =
     (case lexFst st of None \<Rightarrow> Inl (Undefined, st) | Some lx \<Rightarrow>
       (let symbols = lex_getSymbols lib lx
        in case writeLm lib Unk symbols 2 (unkBases st) (prefix st @ ''ulm'') iter st of
             Inl e \<Rightarrow> Inl e
           | Inr st1 \<Rightarrow>
         (case calculateWordBases lib st1 of
            Inl e \<Rightarrow> Inl e
          | Inr (wordBases, st2) \<Rightarrow>
         (case writeLm lib Known symbols (unat (2 + unkSymbolSize st2)) wordBases
                 (prefix st2 @ ''wlm'') iter st2 of
            Inl e \<Rightarrow> Inl e
          | Inr st3 \<Rightarrow>
         (case writeSamples symbols (unat (2 + unkSymbolSize st3))
                 (prefix st3 @ ''samp'') iter st3 of
            Inl e \<Rightarrow> Inl e
          | Inr st4 \<Rightarrow> writeSymbols lib (prefix st4 @ ''sym'') iter st4)))))"

section \<open>Training\<close>

text \<open>Lines 306 to 308. The quotient is an unsigned one: the cast binds to the dividend only.\<close>

definition setAnnealLevel ::
  "unsigned \<Rightarrow> ('p, 'l, 'g) latticelm
    \<Rightarrow> (error \<times> ('p, 'l, 'g) latticelm) + ('p, 'l, 'g) latticelm" where
  "setAnnealLevel iter st =
     (if annealStepLength st = 0 then Inl (Undefined, st)
      else
        (let st1 = st\<lparr>annealLevel :=
                       real (unat ((iter + annealStepLength st - 1) div annealStepLength st))\<rparr>
         in if annealLevel st1 \<noteq> 0 then
              Inr (st1\<lparr>annealLevel :=
                         1 / max 1 (real (unat (numAnnealSteps st1)) - annealLevel st1)\<rparr>)
            else Inr st1))"

text \<open>Lines 318 and 319.\<close>

definition trimIfDue ::
  "('p, 'l, 'g) lib \<Rightarrow> unsigned \<Rightarrow> ('p, 'l, 'g) latticelm
    \<Rightarrow> (error \<times> ('p, 'l, 'g) latticelm) + ('p, 'l, 'g) latticelm" where
  "trimIfDue lib iter st =
     (if trimRate st = 0 then Inl (Undefined, st)
      else if iter mod trimRate st = 0 then trimModels lib st
      else Inr st)"

text \<open>
  Lines 322 to 325. The remainder is taken only when the first test holds;
  \<^verbatim>\<open>printSample\<close> takes an \<^verbatim>\<open>int\<close>.
\<close>

definition sampleIfDue ::
  "('p, 'l, 'g) lib \<Rightarrow> unsigned \<Rightarrow> ('p, 'l, 'g) latticelm
    \<Rightarrow> (error \<times> ('p, 'l, 'g) latticelm) + ('p, 'l, 'g) latticelm" where
  "sampleIfDue lib iter st =
     (if iter \<ge> numBurnIn st then
        (if sampleRate st = 0 then Inl (Undefined, st)
         else if (iter - numBurnIn st) mod sampleRate st = 0 then
           printSample lib (sint iter)
             (st\<lparr>cerr := cerr st @
                    [Str '' Printing sample for iteration '', Num (uint iter), Endl]\<rparr>)
         else Inr st)
      else Inr st)"

text \<open>The body of the loop of \<^verbatim>\<open>train\<close> (lines 302 to 325).\<close>

definition trainIter ::
  "('p, 'l, 'g) lib \<Rightarrow> unsigned \<Rightarrow> ('p, 'l, 'g) latticelm
    \<Rightarrow> (error \<times> ('p, 'l, 'g) latticelm) + ('p, 'l, 'g) latticelm" where
  "trainIter lib iter st =
     (case setAnnealLevel iter
             (st\<lparr>unkLikelihood := 0, knownLikelihood := 0, latticeLikelihood := 0\<rparr>) of
        Inl e \<Rightarrow> Inl e
      | Inr st1 \<Rightarrow>
     (case iterateSamples lib (annealLevel st1) st1 of
        Inl e \<Rightarrow> Inl e
      | Inr st2 \<Rightarrow>
     (case sampleParameters lib st2 of
        Inl e \<Rightarrow> Inl e
      | Inr st3 \<Rightarrow>
     (case printIterationStatus lib iter st3 of
        Inl e \<Rightarrow> Inl e
      | Inr st4 \<Rightarrow>
     (case trimIfDue lib iter st4 of
        Inl e \<Rightarrow> Inl e
      | Inr st5 \<Rightarrow> sampleIfDue lib iter st5)))))"

text \<open>
  The loop of \<^verbatim>\<open>train\<close>: \<^verbatim>\<open>iter <= numSamples_\<close> holds for every \<^verbatim>\<open>unsigned\<close> when
  \<^verbatim>\<open>numSamples_\<close> is the largest one, and the loop then only ends by a failure.
  \<open>None\<close>: the loop never ends.
\<close>

partial_function (option) trainLoop ::
  "('p, 'l, 'g) lib \<Rightarrow> unsigned \<Rightarrow> ('p, 'l, 'g) latticelm
    \<Rightarrow> ((error \<times> ('p, 'l, 'g) latticelm) + ('p, 'l, 'g) latticelm) option" where
  "trainLoop lib iter st =
     (if iter \<le> numSamples st then
        (case trainIter lib iter st of
           Inl e \<Rightarrow> Some (Inl e)
         | Inr st' \<Rightarrow> trainLoop lib (iter + 1) st')
      else Some (Inr st))"

definition train ::
  "('p, 'l, 'g) lib \<Rightarrow> ('p, 'l, 'g) latticelm
    \<Rightarrow> ((error \<times> ('p, 'l, 'g) latticelm) + ('p, 'l, 'g) latticelm) option" where
  "train lib st = trainLoop lib 0 (st\<lparr>mySamples := [0..<length (inputFsts st)]\<rparr>)"

section \<open>A small instance of the library\<close>

text \<open>
  The functions above take the library as a parameter. To run them on concrete inputs,
  here is one small library: a language model that keeps the sentences it was given and
  reports every position as a base position, a lexicon that spells a sampled path as one
  word, a composition that returns its first argument, a pruning that keeps everything
  for a beam that is not negative and nothing for a negative one, and three files.
\<close>

record toy_lm =
  seated :: "int list list"
  base :: "int list"

record toy_lex =
  lex_sep :: string
  perm :: "string list"
  syms :: "string list"
  wordlist :: "int list list"

definition toy_addWord :: "int list \<Rightarrow> toy_lex \<Rightarrow> toy_lex" where
  "toy_addWord w l =
     (if w \<in> set (wordlist l) then l
      else l\<lparr>wordlist := wordlist l @ [w],
             syms := syms l @ [CHR ''w'' # concat (map show_int w)]\<rparr>)"

definition toy_path :: "vfst \<Rightarrow> int list" where
  "toy_path f =
     filter (\<lambda>c. c \<noteq> 0) (concat (map (\<lambda>s. map ilabel (take 1 (arcs s))) (states f)))"

definition toy_fst :: vfst where
  "toy_fst =
     \<lparr>start_state = 0,
      states = [\<lparr>final_weight = None,
                 arcs = [\<lparr>ilabel = 2, olabel = 2, weight = 5, nextstate = 1\<rparr>]\<rparr>,
                \<lparr>final_weight = Some 0, arcs = []\<rparr>]\<rparr>"

definition toy_lib :: "(toy_lm, toy_lex, nat) lib" where
  "toy_lib = \<lparr>
     pylm_new = (\<lambda>n. \<lparr>seated = [], base = []\<rparr>),
     pylm_removeCustomers =
       (\<lambda>ws p g. (p\<lparr>seated := remove1 ws (seated p), base := map int [0..<length ws]\<rparr>, g + 1)),
     pylm_calcSentence =
       (\<lambda>ws bases doAdd p g.
          (0, if doAdd then p\<lparr>seated := ws # seated p, base := map int [0..<length ws]\<rparr> else p,
           g + 1)),
     pylm_getBasePositions = base,
     pylm_trim =
       (\<lambda>b p. (map (\<lambda>i. if int i \<in> set (concat (seated p))
                         then int (length (filter (\<lambda>j. int j \<in> set (concat (seated p))) [0..<i]))
                         else -1) [0..<4],
               p)),
     pylm_sampleParameters = (\<lambda>p g. (p, g + 1)),
     pylm_getVocabSize = (\<lambda>p. int (length (remdups (concat (seated p))))),
     pylm_size = (\<lambda>p. int (length (seated p))),
     pylm_getN = (\<lambda>p. 1),
     pylm_getStrength = (\<lambda>p i. 0),
     pylm_getDiscount = (\<lambda>p i. 0),
     pylm_print = (\<lambda>p ss bases. concat ss),
     lex_new = \<lparr>lex_sep = [], perm = [], syms = [], wordlist = []\<rparr>,
     lex_setSeparator = (\<lambda>sep l. l\<lparr>lex_sep := sep\<rparr>),
     lex_load = (\<lambda>file l. l\<lparr>perm := [''x<eps>'', ''x<phi>'', ''xa'', ''xb''],
                             syms := [''x<eps>'', ''x<phi>'', ''xa'', ''xb'']\<rparr>),
     lex_setPermSymbols = (\<lambda>ids l. l\<lparr>perm := ids, syms := ids\<rparr>),
     lex_initializeArcs = (\<lambda>l. l),
     lex_getNumChars = (\<lambda>l. of_nat (length (perm l) - 2)),
     lex_getWords = wordlist,
     lex_getSymbols = syms,
     lex_getPermSymbols = perm,
     lex_addWord = toy_addWord,
     lex_parseSample =
       (\<lambda>f l. ([int (length (takeWhile (\<lambda>w. w \<noteq> toy_path f) (wordlist (toy_addWord (toy_path f) l))))],
               toy_addWord (toy_path f) l)),
     lex_fst = (\<lambda>l. new_fst),
     fst_Compose = (\<lambda>a b. a),
     fst_PylmFst = (\<lambda>k u n. new_fst),
     fst_ComposePhi = (\<lambda>a b. a),
     fst_Prune = (\<lambda>f beam. if beam < 0 then new_fst else f),
     fst_Read = (\<lambda>tr name. if name = ''a.fst'' then Some toy_fst else None),
     fst_Map =
       (\<lambda>scale f. f\<lparr>states :=
                       map (\<lambda>s. s\<lparr>arcs := map (\<lambda>a. a\<lparr>weight := scale * weight a\<rparr>) (arcs s)\<rparr>)
                         (states f)\<rparr>),
     fst_ArcSort = (\<lambda>f. f),
     SampGen = (\<lambda>f n level g. (f, g + 1)),
     atof = (\<lambda>s. real_of_int (atoi s)),
     time_now = (\<lambda>g. (int g, g + 1)),
     file_lines =
       (\<lambda>name. if name = ''in.txt'' then Some [''a b'', ''b c'']
               else if name = ''bad.txt'' then Some [''a'', '' '']
               else if name = ''files.txt'' then Some [''in.txt'']
               else None)\<rparr>"

text \<open>
  A state as it is after loading and a first sample: one cached sequence, the words
  \<open>[2]\<close>, \<open>[3]\<close> and \<open>[2, 3]\<close>, and the history \<open>[0, 2]\<close> seated in both models.
\<close>

definition toy_state :: "(toy_lm, toy_lex, nat) latticelm" where
  "toy_state =
     (LatticeLM 0)\<lparr>
       prefix := ''out/'', inputFiles := [''in.txt''], cacheInput := True,
       inputFsts := [Some toy_fst], mySamples := [0], histories := [[0, 2]],
       unkSymbolSize := 2, unkBases := replicate 4 (1 / 2),
       lexFst := Some \<lparr>lex_sep = [], perm = [''x<eps>'', ''x<phi>'', ''xa'', ''xb''],
                         syms = [''x<eps>'', ''x<phi>'', ''xa'', ''xb'', ''w2'', ''w3'', ''w23''],
                         wordlist = [[2], [3], [2, 3]]\<rparr>,
       knownLm := Some \<lparr>seated = [[0, 2]], base = [0, 1]\<rparr>,
       unkLm := Some \<lparr>seated = [[2, 3], [2]], base = [0, 1]\<rparr>\<rparr>"

section \<open>The statements of the specification\<close>

text \<open>
  The annealing level as the specification writes it, for epoch \<open>k\<close>, step length \<open>len\<close>
  and \<open>steps\<close> annealing steps, with the integer quotient.
\<close>

definition spec_annealLevel :: "nat \<Rightarrow> nat \<Rightarrow> nat \<Rightarrow> real" where
  "spec_annealLevel k len steps = 1 / max 1 (real steps - real ((k + len - 1) div len))"

text \<open>
  The words a trim keeps: those whose entry in the remap vector is not \<open>-1\<close>, in order.
\<close>

definition live_words :: "WordId list \<Rightarrow> 'a list \<Rightarrow> 'a list" where
  "live_words remap ws = map snd (filter (\<lambda>(i, w). remap ! i \<noteq> -1) (enumerate 0 ws))"

text \<open>
  The calls on the two language models that \<^verbatim>\<open>removeSample\<close> makes for the history \<open>h\<close>,
  the words \<open>kw\<close> of the lexicon and the base positions reported by the word model:
  the word model first, then the character model with the spelling of \<open>h[j]\<close> for each
  position \<open>j\<close>.
\<close>

definition remove_events :: "CharId list list \<Rightarrow> WordId list \<Rightarrow> int list \<Rightarrow> event list" where
  "remove_events kw h positions =
     RemoveCustomers Known h # map (\<lambda>j. RemoveCustomers Unk (kw ! nat (h ! nat j))) positions"

text \<open>
  The calls of \<^verbatim>\<open>addSample\<close>: the character model on the spelling of each word without
  adding (\<open>rets\<close> are the values returned), then the word model with adding and the
  bases \<open>exp\<close> of those values, then the character model with adding on the spelling of
  \<open>h[j]\<close> for each base position \<open>j\<close> reported by the word model.
\<close>

definition add_events ::
  "CharId list list \<Rightarrow> LMProb list \<Rightarrow> WordId list \<Rightarrow> LMProb list \<Rightarrow> LMProb \<Rightarrow> int list
    \<Rightarrow> LMProb list \<Rightarrow> event list" where
  "add_events kw ub h rets pr positions rets2 =
     map2 (\<lambda>w r. CalcSentence Unk (kw ! nat w) ub False r) h rets @
     [CalcSentence Known h (map exp rets) True pr] @
     map2 (\<lambda>j r. CalcSentence Unk (kw ! nat (h ! nat j)) ub True r) positions rets2"

text \<open>Kinds of events, and the events of a call however it ends.\<close>

fun is_customer_call :: "event \<Rightarrow> bool" where
  "is_customer_call (RemoveCustomers m ws) = True"
| "is_customer_call (CalcSentence m ws bases doAdd pr) = True"
| "is_customer_call e = False"

fun is_prune :: "event \<Rightarrow> bool" where
  "is_prune (Prune b) = True"
| "is_prune e = False"

fun is_sample :: "event \<Rightarrow> bool" where
  "is_sample (SampleGen f n l) = True"
| "is_sample e = False"

definition outcome_trace ::
  "(error \<times> ('p, 'l, 'g) latticelm) + ('p, 'l, 'g) latticelm \<Rightarrow> event list" where
  "outcome_trace r = (case r of Inl (e, st) \<Rightarrow> trace st | Inr st \<Rightarrow> trace st)"

text \<open>
  \<open>lm_frame st st'\<close>: the two states differ at most in the language models, the state
  outside the object, the events and the two likelihoods of the models.
\<close>

definition lm_frame :: "('p, 'l, 'g) latticelm \<Rightarrow> ('p, 'l, 'g) latticelm \<Rightarrow> bool" where
  "lm_frame st st' \<longleftrightarrow>
     st'\<lparr>knownLm := knownLm st, unkLm := unkLm st, world := world st, trace := trace st,
         knownLikelihood := knownLikelihood st, unkLikelihood := unkLikelihood st\<rparr> = st"

text \<open>
  The transducer the specification describes for a line of text with the labels \<open>labs\<close>:
  one state per label and one more, from state \<open>i\<close> one arc to state \<open>i + 1\<close> with the
  \<open>i\<close>-th label on both sides and the weight 0, the last state final with the weight 0.
\<close>

definition linear_fst :: "CharId list \<Rightarrow> vfst" where
  "linear_fst labs =
     \<lparr>start_state = 0,
      states =
        map (\<lambda>(i, l). \<lparr>final_weight = None,
                        arcs = [\<lparr>ilabel = l, olabel = l, weight = 0, nextstate = int i + 1\<rparr>]\<rparr>)
          (enumerate 0 labs) @
        [\<lparr>final_weight = Some 0, arcs = []\<rparr>]\<rparr>"

text \<open>All the lines of the input files, in order.\<close>

definition all_lines :: "('p, 'l, 'g) lib \<Rightarrow> string list \<Rightarrow> string list" where
  "all_lines lib files =
     concat (map (\<lambda>f. case file_lines lib f of None \<Rightarrow> [] | Some ls \<Rightarrow> ls) files)"

text \<open>
  The identifier of a token: tokens are numbered from 2 on in the order of their first
  occurrence (0 and 1 are epsilon and phi).
\<close>

definition next_id :: "string \<Rightarrow> (string \<times> CharId) list \<Rightarrow> (string \<times> CharId) list" where
  "next_id t h = (if map_of h t = None then h @ [(t, int (length h))] else h)"

definition char_table :: "string list \<Rightarrow> (string \<times> CharId) list" where
  "char_table toks = fold next_id toks [(''<eps>'', 0), (''<phi>'', 1)]"

definition char_id :: "string list \<Rightarrow> string \<Rightarrow> CharId" where
  "char_id toks t = the (map_of (char_table toks) t)"

text \<open>The labels that the loop over the tokens of a line looks up, with the tables it leaves.\<close>

fun assignIds ::
  "string list \<Rightarrow> (string \<times> CharId) list \<Rightarrow> string list
    \<Rightarrow> CharId list \<times> (string \<times> CharId) list \<times> string list" where
  "assignIds [] h l = ([], h, l)"
| "assignIds (t # ts) h l =
     (case findId t h l of
        (lab, h', l') \<Rightarrow>
          (case assignIds ts h' l' of (labs, h'', l'') \<Rightarrow> (lab # labs, h'', l'')))"

text \<open>The tokens that a sequence of look-ups adds to the table \<open>h\<close>.\<close>

definition new_tokens :: "string list \<Rightarrow> (string \<times> CharId) list \<Rightarrow> string list" where
  "new_tokens ts h = map fst (drop (length h) (fold next_id ts h))"

text \<open>The table of character ids numbers its keys in order and has no key twice.\<close>

definition wf_table :: "(string \<times> CharId) list \<Rightarrow> bool" where
  "wf_table h \<longleftrightarrow> map snd h = map int [0..<length h] \<and> distinct (map fst h)"


text \<open>The names of the files written, in the order of the events.\<close>

fun written :: "event \<Rightarrow> string list" where
  "written (WriteFile name c) = [name]"
| "written e = []"

definition written_names :: "event list \<Rightarrow> string list" where
  "written_names evs = concat (map written evs)"

text \<open>
  Epoch \<open>k\<close> is due for a snapshot: the burn-in is over and \<open>k - burnin\<close> is a multiple of
  the sample rate. The four files of a snapshot, with a prefix and a suffix.
\<close>

definition snapshot_due :: "nat \<Rightarrow> nat \<Rightarrow> nat \<Rightarrow> bool" where
  "snapshot_due k burnin rate \<longleftrightarrow> burnin \<le> k \<and> rate dvd (k - burnin)"

definition snapshot_names :: "string \<Rightarrow> string \<Rightarrow> string list" where
  "snapshot_names pre suffix = map (\<lambda>d. pre @ d @ suffix) [''ulm'', ''wlm'', ''samp'', ''sym'']"

text \<open>What \<^verbatim>\<open>writeLm\<close>, \<^verbatim>\<open>writeSamples\<close> and \<^verbatim>\<open>writeSymbols\<close> append to a file name.\<close>

definition iter_suffix :: "int \<Rightarrow> string" where
  "iter_suffix iter = (if iter \<ge> 0 then CHR ''.'' # show_int iter else [])"




text \<open>
  A fatal configuration error: the process ends with \<^verbatim>\<open>exit(1)\<close>, and the last thing on
  \<^verbatim>\<open>cerr\<close> is the usage message followed by an empty line and \<^verbatim>\<open>Error: \<close> with the message.
\<close>

definition ends_with :: "'a list \<Rightarrow> 'a list \<Rightarrow> bool" where
  "ends_with xs ys \<longleftrightarrow> length ys \<le> length xs \<and> drop (length xs - length ys) xs = ys"


text \<open>
  \<open>parse_frame st st'\<close>: the two states differ at most in the members that an option sets.
\<close>

definition parse_frame :: "('p, 'l, 'g) latticelm \<Rightarrow> ('p, 'l, 'g) latticelm \<Rightarrow> bool" where
  "parse_frame st st' \<longleftrightarrow>
     st'\<lparr>numBurnIn := numBurnIn st, numAnnealSteps := numAnnealSteps st,
         annealStepLength := annealStepLength st, numSamples := numSamples st,
         sampleRate := sampleRate st, knownN := knownN st, unkN := unkN st,
         pruneThreshold := pruneThreshold st, inputFileList := inputFileList st,
         inputType := inputType st, symbolFile := symbolFile st, prefix := prefix st,
         separator := separator st, cacheInput := cacheInput st\<rparr> = st"





section \<open>Basic facts\<close>

lemma vec_at_Some: "vec_at xs i = Some x \<longleftrightarrow> 0 \<le> i \<and> nat i < length xs \<and> xs ! nat i = x"
  by (auto simp: vec_at_def)


lemma anneal_quotient:
  fixes iter len :: unsigned
  assumes "len \<noteq> 0" and "unat iter + unat len - 1 < 2 ^ 32"
  shows "unat ((iter + len - 1) div len) = (unat iter + unat len - 1) div unat len"
proof -
  have l: "1 \<le> unat len" using assms(1) by (simp add: unat_gt_0 Suc_leI)
  have a: "iter + len - 1 = iter + (len - 1)" by simp
  have b: "unat (len - 1) = unat len - 1" using assms(1) by (simp add: unat_minus_one)
  have "unat iter + unat (len - 1) < 2 ^ LENGTH(32)" using assms(2) l b by simp
  then have "unat (iter + (len - 1)) = unat iter + unat (len - 1)"
    by (rule unat_add_lem [THEN iffD1])
  then have "unat (iter + len - 1) = unat iter + unat len - 1"
    unfolding a b using l by arith
  then show ?thesis by (simp add: unat_div)
qed

section \<open>The annealing schedule\<close>

text \<open>
  Claim C2, as the code has it. In every epoch \<open>iter\<close> (with a step length that is not
  zero, and without wrap-around in \<open>iter + annealStepLength - 1\<close>) the level is set; in
  epoch 0 it is 0, since the quotient is 0 there and the code then leaves it; in every
  later epoch it is the value \<open>1 / max 1 (numAnnealSteps - (iter + annealStepLength - 1)
  div annealStepLength)\<close> of the specification. It is below 1 exactly in epoch 0 and
  while the quotient plus one is below \<open>numAnnealSteps\<close>, and never above 1.
\<close>

theorem annealLevel_schedule:
  assumes len: "annealStepLength st \<noteq> 0"
    and nowrap: "unat iter + unat (annealStepLength st) - 1 < 2 ^ 32"
  shows "\<exists>st'. setAnnealLevel iter st = Inr st' \<and>
           (iter = 0 \<longrightarrow> annealLevel st' = 0) \<and>
           (iter \<noteq> 0 \<longrightarrow>
              annealLevel st' =
                spec_annealLevel (unat iter) (unat (annealStepLength st)) (unat (numAnnealSteps st))) \<and>
           (annealLevel st' < 1 \<longleftrightarrow>
              iter = 0 \<or>
              (unat iter + unat (annealStepLength st) - 1) div unat (annealStepLength st) + 1
                < unat (numAnnealSteps st)) \<and>
           annealLevel st' \<le> 1"
proof -
  define l where "l = unat (annealStepLength st)"
  define k where "k = unat iter"
  define n where "n = unat (numAnnealSteps st)"
  define q where "q = (k + l - 1) div l"
  have l1: "1 \<le> l" using len by (simp add: l_def unat_gt_0 Suc_leI)
  have qeq: "unat ((iter + annealStepLength st - 1) div annealStepLength st) = q"
    using anneal_quotient[OF len nowrap] by (simp add: q_def k_def l_def)
  have q0: "q = 0 \<longleftrightarrow> k = 0"
  proof
    assume "q = 0"
    then have "k + l - 1 < l" using l1 by (simp add: q_def div_eq_0_iff)
    then show "k = 0" using l1 by simp
  next
    assume "k = 0" then show "q = 0" using l1 by (simp add: q_def)
  qed
  have k0: "k = 0 \<longleftrightarrow> iter = 0" by (simp add: k_def unat_eq_zero)
  show ?thesis
  proof (cases "iter = 0")
    case True
    then have "q = 0" using q0 k0 by simp
    then show ?thesis using True len qeq
      by (simp add: setAnnealLevel_def Let_def)
  next
    case False
    then have qpos: "0 < q" using q0 k0 by simp
    have lev: "setAnnealLevel iter st =
       Inr (st\<lparr>annealLevel := 1 / max 1 (real n - real q)\<rparr>)"
      using len qeq qpos by (simp add: setAnnealLevel_def Let_def n_def)
    have lt: "1 / max 1 (real n - real q) < 1 \<longleftrightarrow> q + 1 < n"
    proof -
      have "1 / max 1 (real n - real q) < 1 \<longleftrightarrow> 1 < max 1 (real n - real q)"
        by (simp add: max_def)
      also have "\<dots> \<longleftrightarrow> 1 < real n - real q" by (simp add: max_def)
      also have "\<dots> \<longleftrightarrow> q + 1 < n" by linarith
      finally show ?thesis .
    qed
    have le: "1 / max 1 (real n - real q) \<le> 1" by (simp add: max_def)
    show ?thesis using False lev lt le
      by (simp add: spec_annealLevel_def q_def k_def l_def n_def)
  qed
qed

text \<open>
  The theorem at the defaults (step length 3, 5 steps): in epoch 4 the quotient is 2
  and the level is \<open>1/3\<close>, below 1.
\<close>

theorem annealLevel_schedule_witness:
  "annealStepLength (LatticeLM () :: (unit, unit, unit) latticelm) \<noteq> 0 \<and>
   unat (4 :: unsigned) + unat (annealStepLength (LatticeLM () :: (unit, unit, unit) latticelm)) - 1
     < 2 ^ 32 \<and>
   (\<exists>st'. setAnnealLevel 4 (LatticeLM () :: (unit, unit, unit) latticelm) = Inr st' \<and>
          annealLevel st' = 1 / 3 \<and> annealLevel st' < 1)"
  using annealLevel_schedule [of "LatticeLM () :: (unit, unit, unit) latticelm" 4]
  by (auto simp add: LatticeLM_def spec_annealLevel_def)

text \<open>
  The claim as the specification states it fails in epoch 0: with the defaults the level
  the code sets is 0, and the formula of the specification gives \<open>1/5\<close>.
\<close>

theorem annealLevel_epoch0_counterexample:
  "setAnnealLevel 0 (LatticeLM () :: (unit, unit, unit) latticelm)
     = Inr ((LatticeLM ())\<lparr>annealLevel := 0\<rparr>) \<and>
   spec_annealLevel 0 3 5 = 1 / 5"
  by (simp add: setAnnealLevel_def LatticeLM_def spec_annealLevel_def)

section \<open>Trimming in the epochs that are due\<close>

lemma keepWords_from:
  assumes "length kw \<le> length ids"
  shows "keepWords lib ids kw i lx =
           Some (foldl (\<lambda>l w. lex_addWord lib w l) lx
                   (map snd (filter (\<lambda>(j, w). ids ! j \<noteq> -1) (enumerate i (drop i kw)))))"
proof (induction "length kw - i" arbitrary: i lx)
  case 0
  then show ?case by (simp add: keepWords.simps)
next
  case (Suc n)
  then have i: "i < length kw" by simp
  then have d: "drop i kw = kw ! i # drop (Suc i) kw" by (simp add: Cons_nth_drop_Suc)
  have at: "vec_at ids (int i) = Some (ids ! i)" using i assms by (simp add: vec_at_def)
  have n: "n = length kw - Suc i" using Suc(2) by simp
  show ?case
    using Suc(1)[OF n] i at
    by (subst keepWords.simps) (simp add: d)
qed

lemma keepWords_all:
  "length kw \<le> length ids \<Longrightarrow>
     keepWords lib ids kw 0 lx = Some (foldl (\<lambda>l w. lex_addWord lib w l) lx (live_words ids kw))"
  by (simp add: keepWords_from live_words_def)

lemma remapRow_from:
  assumes "\<forall>w \<in> set (drop j row). 0 \<le> w \<and> nat w < length ids"
  shows "remapRow ids row j = Some (take j row @ map (\<lambda>w. ids ! nat w) (drop j row))"
  using assms
proof (induction "length row - j" arbitrary: j row)
  case 0
  then show ?case by (simp add: remapRow.simps)
next
  case (Suc n)
  then have j: "j < length row" by simp
  then have d: "drop j row = row ! j # drop (Suc j) row" by (simp add: Cons_nth_drop_Suc)
  have r: "0 \<le> row ! j \<and> nat (row ! j) < length ids" using Suc(3) d by simp
  then have at: "vec_at ids (row ! j) = Some (ids ! nat (row ! j))" by (simp add: vec_at_def)
  let ?row = "row[j := ids ! nat (row ! j)]"
  have n: "n = length ?row - Suc j" using Suc(2) by simp
  have rest: "\<forall>w \<in> set (drop (Suc j) ?row). 0 \<le> w \<and> nat w < length ids"
    using Suc(3) d by simp
  have "remapRow ids ?row (Suc j) = Some (take (Suc j) ?row @ map (\<lambda>w. ids ! nat w) (drop (Suc j) ?row))"
    by (rule Suc(1)[OF n rest])
  moreover have "take (Suc j) ?row = take j row @ [ids ! nat (row ! j)]"
    using j by (simp add: take_Suc_conv_app_nth)
  ultimately show ?case
    using j at by (subst remapRow.simps) (simp add: d)
qed

lemma remapHistories_from:
  assumes "\<forall>h \<in> set (drop i hs). \<forall>w \<in> set h. 0 \<le> w \<and> nat w < length ids"
  shows "remapHistories ids hs i = Some (take i hs @ map (map (\<lambda>w. ids ! nat w)) (drop i hs))"
  using assms
proof (induction "length hs - i" arbitrary: i hs)
  case 0
  then show ?case by (simp add: remapHistories.simps)
next
  case (Suc n)
  then have i: "i < length hs" by simp
  then have d: "drop i hs = hs ! i # drop (Suc i) hs" by (simp add: Cons_nth_drop_Suc)
  have r: "\<forall>w \<in> set (hs ! i). 0 \<le> w \<and> nat w < length ids" using Suc(3) d by simp
  then have row: "remapRow ids (hs ! i) 0 = Some (map (\<lambda>w. ids ! nat w) (hs ! i))"
    by (simp add: remapRow_from)
  let ?hs = "hs[i := map (\<lambda>w. ids ! nat w) (hs ! i)]"
  have n: "n = length ?hs - Suc i" using Suc(2) by simp
  have rest: "\<forall>h \<in> set (drop (Suc i) ?hs). \<forall>w \<in> set h. 0 \<le> w \<and> nat w < length ids"
    using Suc(3) d by simp
  have "remapHistories ids ?hs (Suc i)
          = Some (take (Suc i) ?hs @ map (map (\<lambda>w. ids ! nat w)) (drop (Suc i) ?hs))"
    by (rule Suc(1)[OF n rest])
  moreover have "take (Suc i) ?hs = take i hs @ [map (\<lambda>w. ids ! nat w) (hs ! i)]"
    using i by (simp add: take_Suc_conv_app_nth)
  ultimately show ?case
    using i row by (subst remapHistories.simps) (simp add: d)
qed

lemma word_multiple:
  fixes iter t :: unsigned
  shows "iter mod t = 0 \<longleftrightarrow> unat iter mod unat t = 0"
  by (metis unat_mod unat_eq_zero)

text \<open>
  Claim C3. In an epoch whose index is a multiple of \<open>trimRate\<close>, on a state whose
  pointers are set, where the remap vector of the word model covers the words of the
  lexicon and the word ids of the histories: the trainer calls \<open>trim(true)\<close> on the word
  model, then \<open>trim(false)\<close> on the character model, whose result it drops; the new
  lexicon is a fresh one with the separator, the permanent symbols of the old one and
  exactly the live words added in order; and every \<open>histories[s][j]\<close> is replaced by
  \<open>remap[histories[s][j]]\<close>.
\<close>

theorem trim_when_due:
  assumes rate: "trimRate st \<noteq> 0"
    and due: "unat (trimRate st) dvd unat iter"
    and lms: "knownLm st = Some k" "unkLm st = Some u" "lexFst st = Some lx"
    and remap: "pylm_trim lib True k = (remap, k')"
    and words: "length (lex_getWords lib lx) \<le> length remap"
    and hist: "\<forall>h \<in> set (histories st). \<forall>w \<in> set h. 0 \<le> w \<and> nat w < length remap"
  shows "trimIfDue lib iter st =
           Inr (st\<lparr>knownLm := Some k',
                    unkLm := Some (snd (pylm_trim lib False u)),
                    trace := trace st @ [Trim Known True, Trim Unk False],
                    lexFst := Some (foldl (\<lambda>l w. lex_addWord lib w l)
                                (lex_initializeArcs lib
                                   (lex_setPermSymbols lib (lex_getPermSymbols lib lx)
                                      (lex_setSeparator lib (separator st) (lex_new lib))))
                                (live_words remap (lex_getWords lib lx))),
                    histories := map (map (\<lambda>w. remap ! nat w)) (histories st)\<rparr>)"
proof -
  have "iter mod trimRate st = 0" using due by (simp add: word_multiple mod_eq_0_iff_dvd)
  then have "trimIfDue lib iter st = trimModels lib st" using rate by (simp add: trimIfDue_def)
  moreover have "remapHistories remap (histories st) 0
                   = Some (map (map (\<lambda>w. remap ! nat w)) (histories st))"
    using hist by (simp add: remapHistories_from)
  ultimately show ?thesis
    using lms remap words by (simp add: trimModels_def keepWords_all)
qed


text \<open>
  The theorem on the small instance in epoch 3 (\<open>trimRate\<close> is 1): the word 1 is not
  seated, the remap vector is \<open>[0, -1, 1, -1]\<close>, the history \<open>[0, 2]\<close> becomes \<open>[0, 1]\<close> and
  the lexicon keeps the words \<open>[2]\<close> and \<open>[2, 3]\<close>.
\<close>

theorem trim_when_due_witness:
  "trimRate toy_state \<noteq> 0 \<and> unat (trimRate toy_state) dvd unat (3 :: unsigned) \<and>
   (\<exists>st'. trimIfDue toy_lib 3 toy_state = Inr st' \<and>
          histories st' = [[0, 1]] \<and>
          map_option wordlist (lexFst st') = Some [[2], [2, 3]] \<and>
          trace st' = [Trim Known True, Trim Unk False])"
  using trim_when_due [of toy_state 3 "\<lparr>seated = [[0, 2]], base = [0, 1]\<rparr>"
      "\<lparr>seated = [[2, 3], [2]], base = [0, 1]\<rparr>"
      "\<lparr>lex_sep = [], perm = [''x<eps>'', ''x<phi>'', ''xa'', ''xb''],
        syms = [''x<eps>'', ''x<phi>'', ''xa'', ''xb'', ''w2'', ''w3'', ''w23''],
        wordlist = [[2], [3], [2, 3]]\<rparr>" toy_lib "[0, -1, 1, -1]"
      "\<lparr>seated = [[0, 2]], base = [0, 1]\<rparr>"]
  by (simp add: toy_state_def toy_lib_def LatticeLM_def live_words_def toy_addWord_def upt_rec)

section \<open>Resampling one sequence: the calls on the models, pruning, collapse\<close>

lemma lm_frame_refl [simp]: "lm_frame st st"
  by (simp add: lm_frame_def)

lemma lm_frame_trans: "lm_frame a b \<Longrightarrow> lm_frame b c \<Longrightarrow> lm_frame a c"
proof -
  assume ab: "lm_frame a b" and bc: "lm_frame b c"
  have "c\<lparr>knownLm := knownLm a, unkLm := unkLm a, world := world a, trace := trace a,
         knownLikelihood := knownLikelihood a, unkLikelihood := unkLikelihood a\<rparr>
      = (c\<lparr>knownLm := knownLm b, unkLm := unkLm b, world := world b, trace := trace b,
         knownLikelihood := knownLikelihood b, unkLikelihood := unkLikelihood b\<rparr>)
         \<lparr>knownLm := knownLm a, unkLm := unkLm a, world := world a, trace := trace a,
         knownLikelihood := knownLikelihood a, unkLikelihood := unkLikelihood a\<rparr>"
    by simp
  also have "\<dots> = b\<lparr>knownLm := knownLm a, unkLm := unkLm a, world := world a, trace := trace a,
         knownLikelihood := knownLikelihood a, unkLikelihood := unkLikelihood a\<rparr>"
    using bc by (simp only: lm_frame_def)
  also have "\<dots> = a" using ab by (simp only: lm_frame_def)
  finally show ?thesis by (simp only: lm_frame_def)
qed

lemma lm_frame_fields:
  assumes "lm_frame st st'"
  shows "histories st' = histories st" "lexFst st' = lexFst st" "unkBases st' = unkBases st"
    "inputFsts st' = inputFsts st" "cacheInput st' = cacheInput st" "inputFiles st' = inputFiles st"
    "amScale st' = amScale st" "pruneThreshold st' = pruneThreshold st"
    "unkSymbolSize st' = unkSymbolSize st" "latticeLikelihood st' = latticeLikelihood st"
    "cerr st' = cerr st" "prefix st' = prefix st"
  using arg_cong [OF assms [unfolded lm_frame_def], of histories]
    arg_cong [OF assms [unfolded lm_frame_def], of lexFst]
    arg_cong [OF assms [unfolded lm_frame_def], of unkBases]
    arg_cong [OF assms [unfolded lm_frame_def], of inputFsts]
    arg_cong [OF assms [unfolded lm_frame_def], of cacheInput]
    arg_cong [OF assms [unfolded lm_frame_def], of inputFiles]
    arg_cong [OF assms [unfolded lm_frame_def], of amScale]
    arg_cong [OF assms [unfolded lm_frame_def], of pruneThreshold]
    arg_cong [OF assms [unfolded lm_frame_def], of unkSymbolSize]
    arg_cong [OF assms [unfolded lm_frame_def], of latticeLikelihood]
    arg_cong [OF assms [unfolded lm_frame_def], of cerr]
    arg_cong [OF assms [unfolded lm_frame_def], of prefix]
  by simp_all

lemma removeCustomers_frame:
  "removeCustomers lib m ws st = Inr st' \<Longrightarrow>
     lm_frame st st' \<and> trace st' = trace st @ [RemoveCustomers m ws]"
  by (auto simp: removeCustomers_def getLm_def setLm_def lm_frame_def
           split: option.splits prod.splits lm.splits)

lemma removeCustomers_Unk_known:
  "removeCustomers lib Unk ws st = Inr st' \<Longrightarrow> knownLm st' = knownLm st"
  by (auto simp: removeCustomers_def getLm_def setLm_def split: option.splits prod.splits)

lemma removeCustomers_Known_known:
  "removeCustomers lib Known ws st = Inr st' \<Longrightarrow> knownLm st = Some k \<Longrightarrow>
     knownLm st' = Some (fst (pylm_removeCustomers lib ws k (world st)))"
  by (auto simp: removeCustomers_def getLm_def setLm_def split: option.splits prod.splits)

lemma calcSentence_frame:
  "calcSentence lib m ws bases doAdd st = Inr (pr, st') \<Longrightarrow>
     lm_frame st st' \<and> trace st' = trace st @ [CalcSentence m ws bases doAdd pr]"
  by (auto simp: calcSentence_def getLm_def setLm_def lm_frame_def
           split: option.splits prod.splits lm.splits)

lemma calcSentence_Unk_known:
  "calcSentence lib Unk ws bases doAdd st = Inr (pr, st') \<Longrightarrow> knownLm st' = knownLm st"
  by (auto simp: calcSentence_def getLm_def setLm_def split: option.splits prod.splits)

lemma removeSpellings_frame:
  "removeSpellings lib kw h ps st = Inr st' \<Longrightarrow>
     lm_frame st st' \<and> knownLm st' = knownLm st \<and>
     trace st' = trace st @ map (\<lambda>j. RemoveCustomers Unk (kw ! nat (h ! nat j))) ps"
proof (induction ps arbitrary: st)
  case Nil
  then show ?case by simp
next
  case (Cons p ps)
  from Cons.prems obtain w sp st1 where
    w: "vec_at h p = Some w" and sp: "vec_at kw w = Some sp"
    and r: "removeCustomers lib Unk sp st = Inr st1"
    and rest: "removeSpellings lib kw h ps st1 = Inr st'"
    by (auto split: option.splits sum.splits)
  have e: "sp = kw ! nat (h ! nat p)" using w sp by (auto simp: vec_at_def split: if_splits)
  show ?case
    using Cons.IH[OF rest] removeCustomers_frame[OF r] removeCustomers_Unk_known[OF r] e
    by (auto intro: lm_frame_trans)
qed


lemma removeSample_frame:
  assumes "removeSample lib s st = Inr st'" and "knownLm st = Some k" and "lexFst st = Some lx"
  shows "lm_frame st st' \<and>
         trace st' = trace st @
           remove_events (lex_getWords lib lx) (histories st ! s)
             (pylm_getBasePositions lib (fst (pylm_removeCustomers lib (histories st ! s) k (world st))))"
proof -
  from assms(1) obtain h st1 k1 lx1 where
    h: "vec_at (histories st) (int s) = Some h"
    and r: "removeCustomers lib Known h st = Inr st1"
    and k1: "knownLm st1 = Some k1" and lx1: "lexFst st1 = Some lx1"
    and rest: "removeSpellings lib (lex_getWords lib lx1) h (pylm_getBasePositions lib k1) st1 = Inr st'"
    by (auto simp: removeSample_def split: option.splits sum.splits)
  have hh: "h = histories st ! s" using h by (auto simp: vec_at_def split: if_splits)
  note f1 = removeCustomers_frame[OF r]
  have "lx1 = lx" using lm_frame_fields(2)[OF f1[THEN conjunct1]] lx1 assms(3) by simp
  moreover have "k1 = fst (pylm_removeCustomers lib h k (world st))"
    using removeCustomers_Known_known[OF r assms(2)] k1 by simp
  ultimately show ?thesis
    using removeSpellings_frame[OF rest] f1 hh
    by (auto simp: remove_events_def intro: lm_frame_trans)
qed

lemma spellingBases_frame:
  "spellingBases lib kw ws st = Inr (bases, st') \<Longrightarrow>
     lm_frame st st' \<and> knownLm st' = knownLm st \<and>
     (\<exists>rets. length rets = length ws \<and> bases = map exp rets \<and>
        trace st' = trace st @
          map2 (\<lambda>w r. CalcSentence Unk (kw ! nat w) (unkBases st) False r) ws rets)"
proof (induction ws arbitrary: st bases)
  case Nil
  then show ?case by simp
next
  case (Cons w ws)
  from Cons.prems obtain sp pr st1 bs where
    sp: "vec_at kw w = Some sp"
    and c: "calcSentence lib Unk sp (unkBases st) False st = Inr (pr, st1)"
    and rest: "spellingBases lib kw ws st1 = Inr (bs, st')"
    and b: "bases = exp pr # bs"
    by (auto split: option.splits sum.splits)
  have e: "sp = kw ! nat w" using sp by (auto simp: vec_at_def split: if_splits)
  note f1 = calcSentence_frame[OF c]
  have ub: "unkBases st1 = unkBases st" using lm_frame_fields(3)[OF f1[THEN conjunct1]] .
  from Cons.IH[OF rest] obtain rets where
    fr: "lm_frame st1 st'" and kn: "knownLm st' = knownLm st1"
    and l: "length rets = length ws" and bs: "bs = map exp rets"
    and tr: "trace st' = trace st1 @
          map2 (\<lambda>w r. CalcSentence Unk (kw ! nat w) (unkBases st1) False r) ws rets"
    by blast
  have "length (pr # rets) = length (w # ws) \<and> bases = map exp (pr # rets) \<and>
        trace st' = trace st @
          map2 (\<lambda>w r. CalcSentence Unk (kw ! nat w) (unkBases st) False r) (w # ws) (pr # rets)"
    using l bs b tr f1 ub e by simp
  moreover have "lm_frame st st'" using f1 fr by (blast intro: lm_frame_trans)
  moreover have "knownLm st' = knownLm st" using kn calcSentence_Unk_known[OF c] by simp
  ultimately show ?case by blast
qed

lemma unkLikelihood_frame:
  "lm_frame st st' \<Longrightarrow> lm_frame st (st'\<lparr>unkLikelihood := x\<rparr>)"
  "lm_frame st st' \<Longrightarrow> lm_frame st (st'\<lparr>knownLikelihood := x\<rparr>)"
  by (simp_all add: lm_frame_def)

lemma addSpellings_frame:
  "addSpellings lib kw ws ps st = Inr st' \<Longrightarrow>
     lm_frame st st' \<and> knownLm st' = knownLm st \<and>
     (\<exists>rets. length rets = length ps \<and>
        trace st' = trace st @
          map2 (\<lambda>j r. CalcSentence Unk (kw ! nat (ws ! nat j)) (unkBases st) True r) ps rets)"
proof (induction ps arbitrary: st)
  case Nil
  then show ?case by simp
next
  case (Cons p ps)
  from Cons.prems obtain w sp pr st1 where
    w: "vec_at ws p = Some w" and sp: "vec_at kw w = Some sp"
    and c: "calcSentence lib Unk sp (unkBases st) True st = Inr (pr, st1)"
    and rest: "addSpellings lib kw ws ps (st1\<lparr>unkLikelihood := unkLikelihood st1 - pr\<rparr>) = Inr st'"
    by (auto split: option.splits sum.splits)
  have e: "sp = kw ! nat (ws ! nat p)" using w sp by (auto simp: vec_at_def split: if_splits)
  note f1 = calcSentence_frame[OF c]
  let ?st1 = "st1\<lparr>unkLikelihood := unkLikelihood st1 - pr\<rparr>"
  have f1': "lm_frame st ?st1" using f1 by (simp add: unkLikelihood_frame)
  have ub: "unkBases ?st1 = unkBases st" using lm_frame_fields(3)[OF f1'] .
  from Cons.IH[OF rest] obtain rets where
    fr: "lm_frame ?st1 st'" and kn: "knownLm st' = knownLm ?st1"
    and l: "length rets = length ps"
    and tr: "trace st' = trace ?st1 @
          map2 (\<lambda>j r. CalcSentence Unk (kw ! nat (ws ! nat j)) (unkBases ?st1) True r) ps rets"
    by blast
  have "length (pr # rets) = length (p # ps) \<and>
        trace st' = trace st @
          map2 (\<lambda>j r. CalcSentence Unk (kw ! nat (ws ! nat j)) (unkBases st) True r) (p # ps) (pr # rets)"
    using l tr f1 ub e by simp
  moreover have "lm_frame st st'" using f1' fr by (blast intro: lm_frame_trans)
  moreover have "knownLm st' = knownLm st" using kn calcSentence_Unk_known[OF c] by simp
  ultimately show ?case by blast
qed

lemma addSample_frame:
  assumes "addSample lib s st = Inr st'" and "lexFst st = Some lx"
  shows "lm_frame st st' \<and>
         (\<exists>rets pr rets2 k'.
            knownLm st' = Some k' \<and>
            length rets = length (histories st ! s) \<and>
            length rets2 = length (pylm_getBasePositions lib k') \<and>
            trace st' = trace st @
              add_events (lex_getWords lib lx) (unkBases st) (histories st ! s) rets pr
                (pylm_getBasePositions lib k') rets2)"
proof -
  from assms obtain ws bases st1 pr st2 k' where
    ws: "vec_at (histories st) (int s) = Some ws"
    and b: "spellingBases lib (lex_getWords lib lx) ws st = Inr (bases, st1)"
    and c: "calcSentence lib Known ws bases True st1 = Inr (pr, st2)"
    and k': "knownLm st2 = Some k'"
    and rest: "addSpellings lib (lex_getWords lib lx) ws (pylm_getBasePositions lib k')
                 (st2\<lparr>knownLikelihood := knownLikelihood st2 - pr\<rparr>) = Inr st'"
    by (auto simp: addSample_def Let_def split: option.splits sum.splits)
  have hh: "ws = histories st ! s" using ws by (auto simp: vec_at_def split: if_splits)
  let ?st3 = "st2\<lparr>knownLikelihood := knownLikelihood st2 - pr\<rparr>"
  from spellingBases_frame[OF b] obtain rets where
    f1: "lm_frame st st1" and l1: "length rets = length ws" and bs: "bases = map exp rets"
    and t1: "trace st1 = trace st @
          map2 (\<lambda>w r. CalcSentence Unk (lex_getWords lib lx ! nat w) (unkBases st) False r) ws rets"
    by blast
  note f2 = calcSentence_frame[OF c]
  have f3: "lm_frame st ?st3"
    using f1 f2 by (blast intro: lm_frame_trans unkLikelihood_frame)
  have ub: "unkBases ?st3 = unkBases st" using lm_frame_fields(3)[OF f3] .
  from addSpellings_frame[OF rest] obtain rets2 where
    f4: "lm_frame ?st3 st'" and kn: "knownLm st' = knownLm ?st3"
    and l2: "length rets2 = length (pylm_getBasePositions lib k')"
    and t2: "trace st' = trace ?st3 @
          map2 (\<lambda>j r. CalcSentence Unk (lex_getWords lib lx ! nat (ws ! nat j)) (unkBases ?st3) True r)
            (pylm_getBasePositions lib k') rets2"
    by blast
  have "knownLm st' = Some k'" using kn k' by simp
  moreover have "trace st' = trace st @
              add_events (lex_getWords lib lx) (unkBases st) ws rets pr
                (pylm_getBasePositions lib k') rets2"
    using t1 t2 f2 bs ub by (simp add: add_events_def)
  moreover have "lm_frame st st'" using f3 f4 by (blast intro: lm_frame_trans)
  ultimately show ?thesis using l1 l2 hh by blast
qed


lemma removeCustomers_Inl: "removeCustomers lib m ws st = Inl (e, st') \<Longrightarrow> e = Undefined"
  by (auto simp: removeCustomers_def split: option.splits prod.splits)

lemma calcSentence_Inl: "calcSentence lib m ws bases doAdd st = Inl (e, st') \<Longrightarrow> e = Undefined"
  by (auto simp: calcSentence_def split: option.splits prod.splits)

lemma removeSpellings_Inl: "removeSpellings lib kw h ps st = Inl (e, st') \<Longrightarrow> e = Undefined"
  by (induction ps arbitrary: st)
     (auto split: option.splits sum.splits dest: removeCustomers_Inl)

lemma removeSample_Inl: "removeSample lib s st = Inl (e, st') \<Longrightarrow> e = Undefined"
  by (auto simp: removeSample_def split: option.splits sum.splits
           dest: removeCustomers_Inl removeSpellings_Inl)

lemma spellingBases_Inl: "spellingBases lib kw ws st = Inl (e, st') \<Longrightarrow> e = Undefined"
  by (induction ws arbitrary: st)
     (auto split: option.splits sum.splits dest: calcSentence_Inl)

lemma addSpellings_Inl: "addSpellings lib kw ws ps st = Inl (e, st') \<Longrightarrow> e = Undefined"
  by (induction ps arbitrary: st)
     (auto split: option.splits sum.splits dest: calcSentence_Inl)

lemma addSample_Inl: "addSample lib s st = Inl (e, st') \<Longrightarrow> e = Undefined"
  unfolding addSample_def Let_def
  by (simp split: option.splits sum.splits prod.splits)
     (metis calcSentence_Inl spellingBases_Inl addSpellings_Inl)+

lemma createInputFst_Inl: "createInputFst lib s st = Inl (e, st') \<Longrightarrow> e = Undefined"
  by (auto simp: createInputFst_def Let_def split: option.splits if_splits)

text \<open>What \<open>createInputFst\<close> does when it returns: a cache hit, or a read and a scaling.\<close>

lemma createInputFst_Inr:
  assumes "createInputFst lib s st = Inr (f, st')"
  shows "(cacheInput st \<and> s < length (inputFsts st) \<and> inputFsts st ! s = Some f \<and> st' = st) \<or>
         (\<not> (cacheInput st \<and> s < length (inputFsts st) \<and> inputFsts st ! s \<noteq> None) \<and>
          (\<exists>name nextFst.
             vec_at (inputFiles st) (int s) = Some name \<and>
             fst_Read lib (trace st) name = Some nextFst \<and>
             f = fst_ArcSort lib (fst_Map lib (amScale st) nextFst) \<and>
             st' = st\<lparr>trace := trace st @ [ReadFst name, MapWeights (amScale st) s],
                      inputFsts :=
                        (if cacheInput st then
                           (if length (inputFsts st) \<le> s
                            then resize (s + 1) None (inputFsts st)
                            else inputFsts st)[s := Some f]
                         else inputFsts st)\<rparr>))"
proof (cases "cacheInput st \<and> s < length (inputFsts st) \<and> inputFsts st ! s \<noteq> None")
  case True
  then show ?thesis using assms by (auto simp: createInputFst_def)
next
  case False
  then have c: "(if cacheInput st \<and> length (inputFsts st) > s then inputFsts st ! s else None) = None"
    by auto
  from assms obtain name nextFst where
    n: "vec_at (inputFiles st) (int s) = Some name"
    and r: "fst_Read lib (trace st) name = Some nextFst"
    unfolding createInputFst_def c by (auto simp: Let_def split: option.splits)
  show ?thesis
    using assms False n r unfolding createInputFst_def c
    by (auto simp: Let_def)
qed


lemma sampleFrom_Inr:
  assumes "sampleFrom lib s level inputFst ilFst pylmFst ilpFst prunedFst st = Inr st'"
  shows "1 < NumStates prunedFst \<and>
         (\<exists>lx' k' rets pr rets2.
            lexFst st' = Some lx' \<and> knownLm st' = Some k' \<and> unkBases st' = unkBases st \<and>
            length rets = length (histories st' ! s) \<and>
            length rets2 = length (pylm_getBasePositions lib k') \<and>
            trace st' = trace st @ [SampleGen prunedFst 1 level, ParseSample] @
              add_events (lex_getWords lib lx') (unkBases st) (histories st' ! s) rets pr
                (pylm_getBasePositions lib k') rets2)"
proof -
  from assms have n: "1 < NumStates prunedFst"
    by (auto simp: sampleFrom_def split: if_splits)
  from assms n obtain lx sampledFst g hist lx' st2 w where
    lx: "lexFst st = Some lx"
    and sg: "SampGen lib prunedFst 1 level (world st) = (sampledFst, g)"
    and ps: "lex_parseSample lib sampledFst lx = (hist, lx')"
    and add: "addSample lib s (st\<lparr>world := g, lexFst := Some lx',
                         histories := (histories st)[s := hist],
                         trace := trace st @ [SampleGen prunedFst 1 level, ParseSample]\<rparr>) = Inr st2"
    and st': "st' = st2\<lparr>latticeLikelihood := w\<rparr>"
    by (auto simp: sampleFrom_def Let_def split: option.splits sum.splits prod.splits)
  let ?st1 = "st\<lparr>world := g, lexFst := Some lx',
                         histories := (histories st)[s := hist],
                         trace := trace st @ [SampleGen prunedFst 1 level, ParseSample]\<rparr>"
  have lx1: "lexFst ?st1 = Some lx'" by simp
  from addSample_frame[OF add lx1] obtain rets pr rets2 k' where
    fr: "lm_frame ?st1 st2" and k': "knownLm st2 = Some k'"
    and l1: "length rets = length (histories ?st1 ! s)"
    and l2: "length rets2 = length (pylm_getBasePositions lib k')"
    and tr: "trace st2 = trace ?st1 @
              add_events (lex_getWords lib lx') (unkBases ?st1) (histories ?st1 ! s) rets pr
                (pylm_getBasePositions lib k') rets2"
    by blast
  have h: "histories st2 = histories ?st1" and l: "lexFst st2 = lexFst ?st1"
    and ub: "unkBases st2 = unkBases ?st1"
    using lm_frame_fields[OF fr] by simp_all
  have "lexFst st' = Some lx'" using l st' by simp
  moreover have "knownLm st' = Some k'" using k' st' by simp
  moreover have "unkBases st' = unkBases st" using ub st' by simp
  moreover have "length rets = length (histories st' ! s)" using l1 h st' by simp
  moreover have "trace st' = trace st @ [SampleGen prunedFst 1 level, ParseSample] @
              add_events (lex_getWords lib lx') (unkBases st) (histories st' ! s) rets pr
                (pylm_getBasePositions lib k') rets2"
    using tr h st' by simp
  ultimately show ?thesis using n l2 by blast
qed

lemma sampleFrom_Throw:
  "sampleFrom lib s level inputFst ilFst pylmFst ilpFst prunedFst st = Inl (Throw m, st') \<Longrightarrow>
     NumStates prunedFst \<le> 1"
  by (auto simp: sampleFrom_def Let_def split: if_splits option.splits sum.splits prod.splits
           dest: addSample_Inl)

text \<open>The first part of \<open>singleSample\<close>, when the call does not end in undefined behaviour.\<close>

lemma singleSample_prefix:
  assumes "singleSample lib s level st = r" and "\<forall>st''. r \<noteq> Inl (Undefined, st'')"
  shows "\<exists>h st1 inputFst st2 lx k u.
           vec_at (histories st) (int s) = Some h \<and>
           (if length h \<noteq> 0 then removeSample lib s st else Inr st) = Inr st1 \<and>
           createInputFst lib s st1 = Inr (inputFst, st2) \<and>
           lexFst st2 = Some lx \<and> knownLm st2 = Some k \<and> unkLm st2 = Some u"
  using assms
  by (auto simp: singleSample_def Let_def split: option.splits sum.splits prod.splits if_splits
           dest: removeSample_Inl createInputFst_Inl)


lemma removeSample_pointers:
  assumes "removeSample lib s st = Inr st'"
  shows "\<exists>k lx. knownLm st = Some k \<and> lexFst st = Some lx"
proof -
  from assms obtain h st1 lx1 where
    r: "removeCustomers lib Known h st = Inr st1" and lx1: "lexFst st1 = Some lx1"
    by (auto simp: removeSample_def split: option.splits sum.splits)
  have "lexFst st = Some lx1"
    using lm_frame_fields(2)[OF removeCustomers_frame[OF r, THEN conjunct1]] lx1 by simp
  moreover have "\<exists>k. knownLm st = Some k"
    using r by (auto simp: removeCustomers_def getLm_def split: option.splits)
  ultimately show ?thesis by blast
qed

lemma singleSample_unfold:
  assumes "vec_at (histories st) (int s) = Some h"
    and "(if length h \<noteq> 0 then removeSample lib s st else Inr st) = Inr st1"
    and "createInputFst lib s st1 = Inr (inputFst, st2)"
    and "lexFst st2 = Some lx" "knownLm st2 = Some k" "unkLm st2 = Some u"
  shows "singleSample lib s level st =
           (if pruneThreshold st2 \<noteq> 0 then
              sampleFrom lib s level inputFst (fst_Compose lib inputFst (lex_fst lib lx))
                (fst_PylmFst lib k u (unkSymbolSize st2))
                (fst_ComposePhi lib (fst_Compose lib inputFst (lex_fst lib lx))
                   (fst_PylmFst lib k u (unkSymbolSize st2)))
                (fst_Prune lib
                   (fst_ComposePhi lib (fst_Compose lib inputFst (lex_fst lib lx))
                      (fst_PylmFst lib k u (unkSymbolSize st2)))
                   (pruneThreshold st2))
                (st2\<lparr>trace := trace st2 @ [Prune (pruneThreshold st2)]\<rparr>)
            else
              sampleFrom lib s level inputFst (fst_Compose lib inputFst (lex_fst lib lx))
                (fst_PylmFst lib k u (unkSymbolSize st2))
                (fst_ComposePhi lib (fst_Compose lib inputFst (lex_fst lib lx))
                   (fst_PylmFst lib k u (unkSymbolSize st2)))
                (fst_ComposePhi lib (fst_Compose lib inputFst (lex_fst lib lx))
                   (fst_PylmFst lib k u (unkSymbolSize st2)))
                st2)"
  using assms by (simp add: singleSample_def Let_def)

text \<open>The events of the first part, and what it leaves as it was.\<close>

lemma singleSample_prefix_trace:
  assumes h: "vec_at (histories st) (int s) = Some h"
    and rem: "(if length h \<noteq> 0 then removeSample lib s st else Inr st) = Inr st1"
    and cre: "createInputFst lib s st1 = Inr (inputFst, st2)"
  shows "pruneThreshold st2 = pruneThreshold st \<and> histories st2 = histories st \<and>
         lexFst st2 = lexFst st \<and> unkBases st2 = unkBases st \<and>
         (\<exists>evs. trace st2 = trace st @
            (if h = [] then []
             else remove_events (lex_getWords lib (the (lexFst st))) h
                    (pylm_getBasePositions lib
                       (fst (pylm_removeCustomers lib h (the (knownLm st)) (world st))))) @
            evs \<and>
            (evs = [] \<or> (\<exists>name. evs = [ReadFst name, MapWeights (amScale st) s])))"
proof -
  have hh: "h = histories st ! s" using h by (auto simp: vec_at_def split: if_splits)
  have fr: "lm_frame st st1 \<and>
            trace st1 = trace st @
            (if h = [] then []
             else remove_events (lex_getWords lib (the (lexFst st))) h
                    (pylm_getBasePositions lib
                       (fst (pylm_removeCustomers lib h (the (knownLm st)) (world st)))))"
  proof (cases "h = []")
    case True
    then show ?thesis using rem by simp
  next
    case False
    then have r: "removeSample lib s st = Inr st1" using rem by simp
    from removeSample_pointers[OF r] obtain k lx where
      k: "knownLm st = Some k" and lx: "lexFst st = Some lx" by blast
    show ?thesis using removeSample_frame[OF r k lx] False k lx hh by simp
  qed
  note f = lm_frame_fields[OF fr[THEN conjunct1]]
  from createInputFst_Inr[OF cre] show ?thesis
  proof
    assume "cacheInput st1 \<and> s < length (inputFsts st1) \<and> inputFsts st1 ! s = Some inputFst \<and> st2 = st1"
    then have "st2 = st1" by simp
    then show ?thesis using fr f by simp
  next
    assume "\<not> (cacheInput st1 \<and> s < length (inputFsts st1) \<and> inputFsts st1 ! s \<noteq> None) \<and>
          (\<exists>name nextFst.
             vec_at (inputFiles st1) (int s) = Some name \<and>
             fst_Read lib (trace st1) name = Some nextFst \<and>
             inputFst = fst_ArcSort lib (fst_Map lib (amScale st1) nextFst) \<and>
             st2 = st1\<lparr>trace := trace st1 @ [ReadFst name, MapWeights (amScale st1) s],
                      inputFsts :=
                        (if cacheInput st1 then
                           (if length (inputFsts st1) \<le> s
                            then resize (s + 1) None (inputFsts st1)
                            else inputFsts st1)[s := Some inputFst]
                         else inputFsts st1)\<rparr>)"
    then obtain name where
      st2: "st2 = st1\<lparr>trace := trace st1 @ [ReadFst name, MapWeights (amScale st1) s],
                      inputFsts :=
                        (if cacheInput st1 then
                           (if length (inputFsts st1) \<le> s
                            then resize (s + 1) None (inputFsts st1)
                            else inputFsts st1)[s := Some inputFst]
                         else inputFsts st1)\<rparr>"
      by blast
    have "trace st2 = trace st1 @ [ReadFst name, MapWeights (amScale st) s]"
      using st2 f by simp
    moreover have "pruneThreshold st2 = pruneThreshold st \<and> histories st2 = histories st \<and>
         lexFst st2 = lexFst st \<and> unkBases st2 = unkBases st"
      using st2 f by simp
    ultimately show ?thesis using fr by auto
  qed
qed

lemma remove_events_customer: "e \<in> set (remove_events kw h ps) \<Longrightarrow> is_customer_call e"
  by (auto simp: remove_events_def)

lemma add_events_customer:
  "e \<in> set (add_events kw ub h rets pr ps rets2) \<Longrightarrow> is_customer_call e"
  by (auto simp: add_events_def set_zip)

lemma customer_not_other: "is_customer_call e \<Longrightarrow> \<not> is_prune e \<and> \<not> is_sample e"
  by (cases e) simp_all

lemma filter_customers:
  "\<forall>e \<in> set evs. is_customer_call e \<Longrightarrow> filter is_prune evs = [] \<and> filter is_sample evs = []"
  by (auto simp: filter_empty_conv dest: customer_not_other)

lemma filter_remove_events [simp]:
  "filter is_prune (remove_events kw h ps) = []" "filter is_sample (remove_events kw h ps) = []"
  using filter_customers[of "remove_events kw h ps"] remove_events_customer by blast+

lemma filter_add_events [simp]:
  "filter is_prune (add_events kw ub h rets pr ps rets2) = []"
  "filter is_sample (add_events kw ub h rets pr ps rets2) = []"
  using filter_customers[of "add_events kw ub h rets pr ps rets2"] add_events_customer by blast+

lemmas toy_defs =
  toy_state_def LatticeLM_def toy_lib_def toy_fst_def toy_path_def toy_addWord_def
  vec_at_def NumStates_def getLm_def setLm_def removeCustomers_def calcSentence_def

lemma toy_removeSample:
  "removeSample toy_lib 0 (toy_state\<lparr>pruneThreshold := t\<rparr>) =
     Inr (toy_state\<lparr>pruneThreshold := t,
            knownLm := Some \<lparr>seated = [], base = [0, 1]\<rparr>,
            unkLm := Some \<lparr>seated = [], base = [0, 1]\<rparr>,
            world := 3,
            trace := [RemoveCustomers Known [0, 2], RemoveCustomers Unk [2],
                      RemoveCustomers Unk [2, 3]]\<rparr>)"
  by (simp add: removeSample_def toy_defs upt_rec)

lemma toy_createInputFst:
  "createInputFst toy_lib 0 (toy_state\<lparr>pruneThreshold := t,
            knownLm := Some \<lparr>seated = [], base = [0, 1]\<rparr>,
            unkLm := Some \<lparr>seated = [], base = [0, 1]\<rparr>,
            world := 3,
            trace := [RemoveCustomers Known [0, 2], RemoveCustomers Unk [2],
                      RemoveCustomers Unk [2, 3]]\<rparr>) =
     Inr (toy_fst, toy_state\<lparr>pruneThreshold := t,
            knownLm := Some \<lparr>seated = [], base = [0, 1]\<rparr>,
            unkLm := Some \<lparr>seated = [], base = [0, 1]\<rparr>,
            world := 3,
            trace := [RemoveCustomers Known [0, 2], RemoveCustomers Unk [2],
                      RemoveCustomers Unk [2, 3]]\<rparr>)"
  by (simp add: createInputFst_def toy_state_def LatticeLM_def)

lemma toy_singleSample:
  "t \<ge> 0 \<Longrightarrow>
   singleSample toy_lib 0 1 (toy_state\<lparr>pruneThreshold := t\<rparr>) =
     Inr (toy_state\<lparr>pruneThreshold := t, histories := [[0]],
            knownLm := Some \<lparr>seated = [[0]], base = [0]\<rparr>,
            unkLm := Some \<lparr>seated = [[2]], base = [0]\<rparr>,
            latticeLikelihood := 5, world := 7,
            trace :=
              [RemoveCustomers Known [0, 2], RemoveCustomers Unk [2], RemoveCustomers Unk [2, 3]] @
              (if t \<noteq> 0 then [Prune t] else []) @
              [SampleGen toy_fst 1 1, ParseSample,
               CalcSentence Unk [2] (replicate 4 (1 / 2)) False 0,
               CalcSentence Known [0] [1] True 0,
               CalcSentence Unk [2] (replicate 4 (1 / 2)) True 0]\<rparr>)"
  by (simp add: singleSample_def removeSample_def createInputFst_def sampleFrom_def addSample_def
        Let_def pathWeight.simps toy_defs upt_rec)

text \<open>
  Claim C1. Whenever \<^verbatim>\<open>singleSample\<close> returns for sequence \<open>s\<close>, the events it added are:
  if \<open>histories[s]\<close> was not empty, \<^verbatim>\<open>removeCustomers(histories[s])\<close> on the word model and
  then, for each position \<open>j\<close> of its base positions, \<^verbatim>\<open>removeCustomers\<close> on the character
  model with the spelling of \<open>histories[s][j]\<close>; then events that are no calls on the
  models' customers (reading, pruning, sampling, parsing); then, for the new
  \<open>histories[s]\<close> and the lexicon as it is after parsing, \<^verbatim>\<open>calcSentence\<close> on the character
  model for each word's spelling with \<open>doAdd = false\<close>, \<^verbatim>\<open>calcSentence\<close> on the word model
  with \<open>doAdd = true\<close> and the bases \<open>exp\<close> of the values just returned, and for each position
  \<open>j\<close> of the base positions the word model then reports, \<^verbatim>\<open>calcSentence\<close> on the character
  model with the spelling of \<open>histories[s][j]\<close> and \<open>doAdd = true\<close>.
\<close>

theorem singleSample_lm_calls:
  assumes ok: "singleSample lib s level st = Inr st'"
  shows "\<exists>mid rets pr rets2.
           trace st' = trace st @
             (if histories st ! s = [] then []
              else remove_events (lex_getWords lib (the (lexFst st))) (histories st ! s)
                     (pylm_getBasePositions lib
                        (fst (pylm_removeCustomers lib (histories st ! s) (the (knownLm st))
                                (world st))))) @
             mid @
             add_events (lex_getWords lib (the (lexFst st'))) (unkBases st) (histories st' ! s)
               rets pr (pylm_getBasePositions lib (the (knownLm st'))) rets2 \<and>
           length rets = length (histories st' ! s) \<and>
           length rets2 = length (pylm_getBasePositions lib (the (knownLm st'))) \<and>
           (\<forall>e \<in> set mid. \<not> is_customer_call e)"
proof -
  have nu: "\<forall>st''. (Inr st' :: (error \<times> ('a, 'b, 'c) latticelm) + ('a, 'b, 'c) latticelm)
               \<noteq> Inl (Undefined, st'')" by simp
  from singleSample_prefix[OF ok nu] obtain h st1 inputFst st2 lx k u where
    h: "vec_at (histories st) (int s) = Some h"
    and rem: "(if length h \<noteq> 0 then removeSample lib s st else Inr st) = Inr st1"
    and cre: "createInputFst lib s st1 = Inr (inputFst, st2)"
    and ptr: "lexFst st2 = Some lx" "knownLm st2 = Some k" "unkLm st2 = Some u"
    by blast
  have hh: "h = histories st ! s" using h by (auto simp: vec_at_def split: if_splits)
  from singleSample_prefix_trace[OF h rem cre] obtain evs where
    ub: "unkBases st2 = unkBases st"
    and t2: "trace st2 = trace st @
            (if h = [] then []
             else remove_events (lex_getWords lib (the (lexFst st))) h
                    (pylm_getBasePositions lib
                       (fst (pylm_removeCustomers lib h (the (knownLm st)) (world st))))) @
            evs"
    and evs: "evs = [] \<or> (\<exists>name. evs = [ReadFst name, MapWeights (amScale st) s])"
    by blast
  let ?ilp = "fst_ComposePhi lib (fst_Compose lib inputFst (lex_fst lib lx))
                   (fst_PylmFst lib k u (unkSymbolSize st2))"
  let ?pruned = "if pruneThreshold st2 \<noteq> 0 then fst_Prune lib ?ilp (pruneThreshold st2) else ?ilp"
  let ?st3 = "if pruneThreshold st2 \<noteq> 0
              then st2\<lparr>trace := trace st2 @ [Prune (pruneThreshold st2)]\<rparr> else st2"
  have sf: "sampleFrom lib s level inputFst (fst_Compose lib inputFst (lex_fst lib lx))
                (fst_PylmFst lib k u (unkSymbolSize st2)) ?ilp ?pruned ?st3 = Inr st'"
    using singleSample_unfold[OF h rem cre ptr, of level] ok by (simp split: if_splits)
  from sampleFrom_Inr[OF sf] obtain lx' k' rets pr rets2 where
    lx': "lexFst st' = Some lx'" and k': "knownLm st' = Some k'"
    and l1: "length rets = length (histories st' ! s)"
    and l2: "length rets2 = length (pylm_getBasePositions lib k')"
    and tr: "trace st' = trace ?st3 @ [SampleGen ?pruned 1 level, ParseSample] @
              add_events (lex_getWords lib lx') (unkBases ?st3) (histories st' ! s) rets pr
                (pylm_getBasePositions lib k') rets2"
    by blast
  let ?mid = "evs @ (if pruneThreshold st2 \<noteq> 0 then [Prune (pruneThreshold st2)] else []) @
              [SampleGen ?pruned 1 level, ParseSample]"
  have "trace st' = trace st @
             (if histories st ! s = [] then []
              else remove_events (lex_getWords lib (the (lexFst st))) (histories st ! s)
                     (pylm_getBasePositions lib
                        (fst (pylm_removeCustomers lib (histories st ! s) (the (knownLm st))
                                (world st))))) @
             ?mid @
             add_events (lex_getWords lib (the (lexFst st'))) (unkBases st) (histories st' ! s)
               rets pr (pylm_getBasePositions lib (the (knownLm st'))) rets2"
    using tr t2 ub lx' k' hh by simp
  moreover have "\<forall>e \<in> set ?mid. \<not> is_customer_call e" using evs by auto
  moreover have "length rets2 = length (pylm_getBasePositions lib (the (knownLm st')))"
    using l2 k' by simp
  ultimately show ?thesis using l1
    by (intro exI [of _ ?mid] exI [of _ rets] exI [of _ pr] exI [of _ rets2] conjI)
qed

text \<open>
  The theorem on the small instance: the history \<open>[0, 2]\<close> is removed with the spellings
  \<open>[2]\<close> and \<open>[2, 3]\<close>, the sampled path is the word \<open>[2]\<close>, which is word 0, and it is added.
\<close>

theorem singleSample_lm_calls_witness:
  "\<exists>st' mid rets pr rets2.
     singleSample toy_lib 0 1 toy_state = Inr st' \<and>
     trace st' =
       remove_events [[2], [3], [2, 3]] [0, 2] [0, 1] @ mid @
       add_events [[2], [3], [2, 3]] (replicate 4 (1 / 2)) [0] rets pr [0] rets2 \<and>
     length rets = 1 \<and> length rets2 = 1 \<and> (\<forall>e \<in> set mid. \<not> is_customer_call e)"
proof -
  have ts: "toy_state\<lparr>pruneThreshold := 0\<rparr> = toy_state"
    by (simp add: toy_state_def LatticeLM_def)
  have ok: "singleSample toy_lib 0 1 toy_state =
     Inr (toy_state\<lparr>pruneThreshold := 0, histories := [[0]],
            knownLm := Some \<lparr>seated = [[0]], base = [0]\<rparr>,
            unkLm := Some \<lparr>seated = [[2]], base = [0]\<rparr>,
            latticeLikelihood := 5, world := 7,
            trace :=
              [RemoveCustomers Known [0, 2], RemoveCustomers Unk [2], RemoveCustomers Unk [2, 3],
               SampleGen toy_fst 1 1, ParseSample,
               CalcSentence Unk [2] (replicate 4 (1 / 2)) False 0,
               CalcSentence Known [0] [1] True 0,
               CalcSentence Unk [2] (replicate 4 (1 / 2)) True 0]\<rparr>)"
    using toy_singleSample[of 0] by (simp add: ts)
  from singleSample_lm_calls[OF ok] show ?thesis
    unfolding ok
    by (simp add: toy_state_def LatticeLM_def toy_lib_def upt_rec)
qed

text \<open>
  Claim C5. When the old sample is removed and the input transducer is there, and the
  composed transducer (pruned if the threshold is not 0) has one state or none, then
  \<^verbatim>\<open>singleSample\<close> writes the four transducers, input, input with lexicon, input with
  lexicon and model, and model, in this order, and ends with the exception of
  \<^verbatim>\<open>THROW_ERROR\<close> and its message; nothing is sampled and no history is changed.
\<close>

theorem collapsed_fst_aborts:
  fixes lib :: "('p, 'l, 'g) lib"
  assumes h: "vec_at (histories st) (int s) = Some h"
    and rem: "(if length h \<noteq> 0 then removeSample lib s st else Inr st) = Inr st1"
    and cre: "createInputFst lib s st1 = Inr (inputFst, st2)"
    and ptr: "lexFst st2 = Some lx" "knownLm st2 = Some k" "unkLm st2 = Some u"
  defines "ilFst \<equiv> fst_Compose lib inputFst (lex_fst lib lx)"
    and "pylmFst \<equiv> fst_PylmFst lib k u (unkSymbolSize st2)"
  defines "ilpFst \<equiv> fst_ComposePhi lib ilFst pylmFst"
  assumes collapsed:
    "NumStates (if pruneThreshold st2 \<noteq> 0 then fst_Prune lib ilpFst (pruneThreshold st2)
                else ilpFst) \<le> 1"
  shows "\<exists>st'. singleSample lib s level st =
                  Inl (Throw (''Pruned FST has one or fewer states'' @ [CHR 0x0A]), st') \<and>
           trace st' = trace st2 @
             (if pruneThreshold st2 \<noteq> 0 then [Prune (pruneThreshold st2)] else []) @
             [WriteFile ''inputFst.fst'' (FstFile inputFst),
              WriteFile ''ilFst.fst'' (FstFile ilFst),
              WriteFile ''ilpFst.fst'' (FstFile ilpFst),
              WriteFile ''pylmFst.fst'' (FstFile pylmFst)] \<and>
           histories st' = histories st \<and>
           (\<forall>e \<in> set (drop (length (trace st)) (trace st')). \<not> is_sample e)"
proof -
  from singleSample_prefix_trace[OF h rem cre] obtain evs where
    hist: "histories st2 = histories st"
    and t2: "trace st2 = trace st @
            (if h = [] then []
             else remove_events (lex_getWords lib (the (lexFst st))) h
                    (pylm_getBasePositions lib
                       (fst (pylm_removeCustomers lib h (the (knownLm st)) (world st))))) @
            evs"
    and evs: "evs = [] \<or> (\<exists>name. evs = [ReadFst name, MapWeights (amScale st) s])"
    by blast
  let ?st3 = "if pruneThreshold st2 \<noteq> 0
              then st2\<lparr>trace := trace st2 @ [Prune (pruneThreshold st2)]\<rparr> else st2"
  let ?w = "[WriteFile ''inputFst.fst'' (FstFile inputFst),
              WriteFile ''ilFst.fst'' (FstFile ilFst),
              WriteFile ''ilpFst.fst'' (FstFile ilpFst),
              WriteFile ''pylmFst.fst'' (FstFile pylmFst)]"
  let ?st' = "?st3\<lparr>trace := trace ?st3 @ ?w\<rparr>"
  have 1: "singleSample lib s level st =
             Inl (Throw (''Pruned FST has one or fewer states'' @ [CHR 0x0A]), ?st')"
    using singleSample_unfold[OF h rem cre ptr, of level] collapsed
    unfolding ilFst_def pylmFst_def ilpFst_def
    by (cases "pruneThreshold st2 = 0") (simp_all add: sampleFrom_def)
  have 2: "trace ?st' = trace st2 @
             (if pruneThreshold st2 \<noteq> 0 then [Prune (pruneThreshold st2)] else []) @ ?w"
    by simp
  have 3: "histories ?st' = histories st" using hist by simp
  have "\<forall>e \<in> set (remove_events (lex_getWords lib (the (lexFst st))) h
                    (pylm_getBasePositions lib
                       (fst (pylm_removeCustomers lib h (the (knownLm st)) (world st))))).
          \<not> is_sample e"
    using remove_events_customer customer_not_other by blast
  then have 4: "\<forall>e \<in> set (drop (length (trace st)) (trace ?st')). \<not> is_sample e"
    using t2 evs by (auto split: if_splits)
  show ?thesis using 1 2 3 4 by blast
qed

text \<open>
  The theorem on the small instance with a negative beam, for which the pruning of the
  instance keeps nothing.
\<close>

theorem collapsed_fst_aborts_witness:
  "\<exists>h st1 st2 lx k u.
     vec_at (histories (toy_state\<lparr>pruneThreshold := - 1\<rparr>)) (int 0) = Some h \<and>
     (if length h \<noteq> 0 then removeSample toy_lib 0 (toy_state\<lparr>pruneThreshold := - 1\<rparr>)
      else Inr (toy_state\<lparr>pruneThreshold := - 1\<rparr>)) = Inr st1 \<and>
     createInputFst toy_lib 0 st1 = Inr (toy_fst, st2) \<and>
     lexFst st2 = Some lx \<and> knownLm st2 = Some k \<and> unkLm st2 = Some u \<and>
     NumStates (fst_Prune toy_lib toy_fst (- 1)) \<le> 1 \<and>
     (\<exists>st'. singleSample toy_lib 0 1 (toy_state\<lparr>pruneThreshold := - 1\<rparr>) =
              Inl (Throw (''Pruned FST has one or fewer states'' @ [CHR 0x0A]), st') \<and>
            trace st' =
              [RemoveCustomers Known [0, 2], RemoveCustomers Unk [2], RemoveCustomers Unk [2, 3],
               Prune (- 1),
               WriteFile ''inputFst.fst'' (FstFile toy_fst),
               WriteFile ''ilFst.fst'' (FstFile toy_fst),
               WriteFile ''ilpFst.fst'' (FstFile toy_fst),
               WriteFile ''pylmFst.fst'' (FstFile new_fst)] \<and>
            histories st' = [[0, 2]])"
proof -
  let ?S = "toy_state\<lparr>pruneThreshold := - 1\<rparr>"
  let ?st1 = "toy_state\<lparr>pruneThreshold := - 1,
            knownLm := Some \<lparr>seated = [], base = [0, 1]\<rparr>,
            unkLm := Some \<lparr>seated = [], base = [0, 1]\<rparr>,
            world := 3,
            trace := [RemoveCustomers Known [0, 2], RemoveCustomers Unk [2],
                      RemoveCustomers Unk [2, 3]]\<rparr>"
  have h: "vec_at (histories ?S) (int 0) = Some [0, 2]"
    by (simp add: toy_state_def LatticeLM_def vec_at_def)
  have rem: "(if length [0, 2 :: int] \<noteq> 0 then removeSample toy_lib 0 ?S else Inr ?S) = Inr ?st1"
    using toy_removeSample[of "- 1"] by simp
  have cre: "createInputFst toy_lib 0 ?st1 = Inr (toy_fst, ?st1)"
    by (rule toy_createInputFst)
  have ptr: "lexFst ?st1 = Some \<lparr>lex_sep = [], perm = [''x<eps>'', ''x<phi>'', ''xa'', ''xb''],
                         syms = [''x<eps>'', ''x<phi>'', ''xa'', ''xb'', ''w2'', ''w3'', ''w23''],
                         wordlist = [[2], [3], [2, 3]]\<rparr>"
    "knownLm ?st1 = Some \<lparr>seated = [], base = [0, 1]\<rparr>"
    "unkLm ?st1 = Some \<lparr>seated = [], base = [0, 1]\<rparr>"
    by (simp_all add: toy_state_def LatticeLM_def)
  have col: "NumStates (if pruneThreshold ?st1 \<noteq> 0
       then fst_Prune toy_lib
              (fst_ComposePhi toy_lib
                 (fst_Compose toy_lib toy_fst
                    (lex_fst toy_lib \<lparr>lex_sep = [], perm = [''x<eps>'', ''x<phi>'', ''xa'', ''xb''],
                         syms = [''x<eps>'', ''x<phi>'', ''xa'', ''xb'', ''w2'', ''w3'', ''w23''],
                         wordlist = [[2], [3], [2, 3]]\<rparr>))
                 (fst_PylmFst toy_lib \<lparr>seated = [], base = [0, 1]\<rparr>
                    \<lparr>seated = [], base = [0, 1]\<rparr> (unkSymbolSize ?st1)))
              (pruneThreshold ?st1)
       else fst_ComposePhi toy_lib
                 (fst_Compose toy_lib toy_fst
                    (lex_fst toy_lib \<lparr>lex_sep = [], perm = [''x<eps>'', ''x<phi>'', ''xa'', ''xb''],
                         syms = [''x<eps>'', ''x<phi>'', ''xa'', ''xb'', ''w2'', ''w3'', ''w23''],
                         wordlist = [[2], [3], [2, 3]]\<rparr>))
                 (fst_PylmFst toy_lib \<lparr>seated = [], base = [0, 1]\<rparr>
                    \<lparr>seated = [], base = [0, 1]\<rparr> (unkSymbolSize ?st1))) \<le> 1"
    by (simp add: toy_lib_def NumStates_def new_fst_def)
  have n: "NumStates (fst_Prune toy_lib toy_fst (- 1)) \<le> 1"
    by (simp add: toy_lib_def NumStates_def new_fst_def)
  from collapsed_fst_aborts[OF h rem cre ptr col, of 1] obtain st' where
    "singleSample toy_lib 0 1 ?S =
              Inl (Throw (''Pruned FST has one or fewer states'' @ [CHR 0x0A]), st')"
    "trace st' =
              [RemoveCustomers Known [0, 2], RemoveCustomers Unk [2], RemoveCustomers Unk [2, 3],
               Prune (- 1),
               WriteFile ''inputFst.fst'' (FstFile toy_fst),
               WriteFile ''ilFst.fst'' (FstFile toy_fst),
               WriteFile ''ilpFst.fst'' (FstFile toy_fst),
               WriteFile ''pylmFst.fst'' (FstFile new_fst)]"
    "histories st' = [[0, 2]]"
    by (auto simp: toy_lib_def toy_state_def LatticeLM_def)
  then show ?thesis using h rem cre ptr n by blast
qed

text \<open>
  Claim C8, as the code has it. When the old sample is removed and the input transducer
  is there, the rest of \<^verbatim>\<open>singleSample\<close> runs on the composed transducer pruned with the
  beam \<open>pruneThreshold\<close> if \<open>pruneThreshold\<close> is not 0 (negative values included), and on
  the composed transducer itself if it is 0. A resample that returns has made exactly
  one call of \<open>Prune\<close> in the first case and none in the second, and has sampled once,
  from that transducer.
\<close>

theorem prune_iff_threshold_nonzero:
  fixes lib :: "('p, 'l, 'g) lib"
  assumes h: "vec_at (histories st) (int s) = Some h"
    and rem: "(if length h \<noteq> 0 then removeSample lib s st else Inr st) = Inr st1"
    and cre: "createInputFst lib s st1 = Inr (inputFst, st2)"
    and ptr: "lexFst st2 = Some lx" "knownLm st2 = Some k" "unkLm st2 = Some u"
  defines "ilFst \<equiv> fst_Compose lib inputFst (lex_fst lib lx)"
    and "pylmFst \<equiv> fst_PylmFst lib k u (unkSymbolSize st2)"
  defines "ilpFst \<equiv> fst_ComposePhi lib ilFst pylmFst"
  defines "prunedFst \<equiv> (if pruneThreshold st \<noteq> 0 then fst_Prune lib ilpFst (pruneThreshold st)
                          else ilpFst)"
  shows "singleSample lib s level st =
           sampleFrom lib s level inputFst ilFst pylmFst ilpFst prunedFst
             (if pruneThreshold st \<noteq> 0
              then st2\<lparr>trace := trace st2 @ [Prune (pruneThreshold st)]\<rparr> else st2) \<and>
         (\<forall>st'. singleSample lib s level st = Inr st' \<longrightarrow>
            filter is_prune (drop (length (trace st)) (trace st')) =
              (if pruneThreshold st \<noteq> 0 then [Prune (pruneThreshold st)] else []) \<and>
            filter is_sample (drop (length (trace st)) (trace st')) =
              [SampleGen prunedFst 1 level])"
proof -
  from singleSample_prefix_trace[OF h rem cre] obtain evs where
    pt: "pruneThreshold st2 = pruneThreshold st"
    and t2: "trace st2 = trace st @
            (if h = [] then []
             else remove_events (lex_getWords lib (the (lexFst st))) h
                    (pylm_getBasePositions lib
                       (fst (pylm_removeCustomers lib h (the (knownLm st)) (world st))))) @
            evs"
    and evs: "evs = [] \<or> (\<exists>name. evs = [ReadFst name, MapWeights (amScale st) s])"
    by blast
  let ?st3 = "if pruneThreshold st \<noteq> 0
              then st2\<lparr>trace := trace st2 @ [Prune (pruneThreshold st)]\<rparr> else st2"
  have 1: "singleSample lib s level st =
           sampleFrom lib s level inputFst ilFst pylmFst ilpFst prunedFst ?st3"
    using singleSample_unfold[OF h rem cre ptr, of level] pt
    by (simp add: ilFst_def pylmFst_def ilpFst_def prunedFst_def)
  have 2: "filter is_prune (drop (length (trace st)) (trace st')) =
              (if pruneThreshold st \<noteq> 0 then [Prune (pruneThreshold st)] else []) \<and>
            filter is_sample (drop (length (trace st)) (trace st')) =
              [SampleGen prunedFst 1 level]"
    if ok: "singleSample lib s level st = Inr st'" for st'
  proof -
    have sf: "sampleFrom lib s level inputFst ilFst pylmFst ilpFst prunedFst ?st3 = Inr st'"
      using 1 ok by simp
    from sampleFrom_Inr[OF sf] obtain lx' k' rets pr rets2 where
      tr: "trace st' = trace ?st3 @ [SampleGen prunedFst 1 level, ParseSample] @
              add_events (lex_getWords lib lx') (unkBases ?st3) (histories st' ! s) rets pr
                (pylm_getBasePositions lib k') rets2"
      by blast
    show ?thesis using tr t2 evs by (auto split: if_splits)
  qed
  show ?thesis using 1 2 by blast
qed

text \<open>The theorem on the small instance with the beam 3.\<close>

theorem prune_iff_threshold_nonzero_witness:
  "\<exists>h st1 st2 lx k u st'.
     vec_at (histories (toy_state\<lparr>pruneThreshold := 3\<rparr>)) (int 0) = Some h \<and>
     (if length h \<noteq> 0 then removeSample toy_lib 0 (toy_state\<lparr>pruneThreshold := 3\<rparr>)
      else Inr (toy_state\<lparr>pruneThreshold := 3\<rparr>)) = Inr st1 \<and>
     createInputFst toy_lib 0 st1 = Inr (toy_fst, st2) \<and>
     lexFst st2 = Some lx \<and> knownLm st2 = Some k \<and> unkLm st2 = Some u \<and>
     singleSample toy_lib 0 1 (toy_state\<lparr>pruneThreshold := 3\<rparr>) = Inr st' \<and>
     filter is_prune (drop (length (trace (toy_state\<lparr>pruneThreshold := 3\<rparr>))) (trace st'))
       = [Prune 3] \<and>
     filter is_sample (drop (length (trace (toy_state\<lparr>pruneThreshold := 3\<rparr>))) (trace st'))
       = [SampleGen (fst_Prune toy_lib toy_fst 3) 1 1]"
proof -
  let ?S = "toy_state\<lparr>pruneThreshold := 3\<rparr>"
  let ?st1 = "toy_state\<lparr>pruneThreshold := 3,
            knownLm := Some \<lparr>seated = [], base = [0, 1]\<rparr>,
            unkLm := Some \<lparr>seated = [], base = [0, 1]\<rparr>,
            world := 3,
            trace := [RemoveCustomers Known [0, 2], RemoveCustomers Unk [2],
                      RemoveCustomers Unk [2, 3]]\<rparr>"
  have h: "vec_at (histories ?S) (int 0) = Some [0, 2]"
    by (simp add: toy_state_def LatticeLM_def vec_at_def)
  have rem: "(if length [0, 2 :: int] \<noteq> 0 then removeSample toy_lib 0 ?S else Inr ?S) = Inr ?st1"
    using toy_removeSample[of 3] by simp
  have cre: "createInputFst toy_lib 0 ?st1 = Inr (toy_fst, ?st1)"
    by (rule toy_createInputFst)
  have ptr: "lexFst ?st1 = Some \<lparr>lex_sep = [], perm = [''x<eps>'', ''x<phi>'', ''xa'', ''xb''],
                         syms = [''x<eps>'', ''x<phi>'', ''xa'', ''xb'', ''w2'', ''w3'', ''w23''],
                         wordlist = [[2], [3], [2, 3]]\<rparr>"
    "knownLm ?st1 = Some \<lparr>seated = [], base = [0, 1]\<rparr>"
    "unkLm ?st1 = Some \<lparr>seated = [], base = [0, 1]\<rparr>"
    by (simp_all add: toy_state_def LatticeLM_def)
  obtain st' where ok: "singleSample toy_lib 0 1 ?S = Inr st'"
    using toy_singleSample[of 3] by simp
  have p: "pruneThreshold ?S = 3" by simp
  from prune_iff_threshold_nonzero[OF h rem cre ptr, of 1, THEN conjunct2, rule_format, OF ok]
  have "filter is_prune (drop (length (trace ?S)) (trace st')) = [Prune 3] \<and>
        filter is_sample (drop (length (trace ?S)) (trace st'))
          = [SampleGen (fst_Prune toy_lib toy_fst 3) 1 1]"
    unfolding p by (simp add: toy_lib_def)
  then show ?thesis using h rem cre ptr ok by blast
qed

text \<open>
  The claim as stated (pruned if and only if the threshold is above 0) fails for a
  negative threshold: with \<open>-1\<close> the code calls \<open>Prune\<close> with the beam \<open>-1\<close>.
\<close>

theorem prune_negative_counterexample:
  "pruneThreshold (toy_state\<lparr>pruneThreshold := - 1\<rparr>) = - 1 \<and>
   filter is_prune (outcome_trace (singleSample toy_lib 0 1 (toy_state\<lparr>pruneThreshold := - 1\<rparr>)))
     = [Prune (- 1)]"
  by (simp add: singleSample_def removeSample_def createInputFst_def sampleFrom_def
        Let_def toy_defs upt_rec outcome_trace_def new_fst_def)

section \<open>Text input: lines, transducers and the symbol table\<close>

lemma findId_eq:
  "findId t h l =
     (the (map_of (next_id t h) t), next_id t h,
      if map_of h t = None then l @ [CHR ''x'' # t] else l)"
  by (auto simp: findId_def next_id_def map_add_def split: option.splits)

lemma next_id_extends: "\<exists>ext. next_id t h = h @ ext"
  by (simp add: next_id_def)

lemma fold_next_id_extends: "\<exists>ext. fold next_id ts h = h @ ext"
proof (induction ts arbitrary: h)
  case Nil
  then show ?case by simp
next
  case (Cons t ts)
  obtain e1 where e1: "next_id t h = h @ e1" using next_id_extends by blast
  obtain e2 where "fold next_id ts (next_id t h) = next_id t h @ e2" using Cons by blast
  then show ?case using e1 by simp
qed

lemma map_of_extend: "map_of h t = Some v \<Longrightarrow> map_of (h @ ext) t = Some v"
  by (simp add: map_of_append)

lemma next_id_has: "\<exists>v. map_of (next_id t h) t = Some v"
  by (cases "map_of h t") (auto simp: next_id_def map_add_def)

lemma fold_next_id_stable:
  "map_of h t = Some v \<Longrightarrow> map_of (fold next_id ts h) t = Some v"
  using fold_next_id_extends[of ts h] map_of_extend by metis

lemma new_tokens_Cons:
  "new_tokens (t # ts) h =
     (if map_of h t = None then t # new_tokens ts (next_id t h) else new_tokens ts (next_id t h))"
proof -
  obtain ext where e: "fold next_id ts (next_id t h) = next_id t h @ ext"
    using fold_next_id_extends by blast
  show ?thesis
    by (simp add: new_tokens_def e) (simp add: next_id_def)
qed

lemma assignIds_eq:
  "assignIds ts h l =
     (map (\<lambda>t. the (map_of (fold next_id ts h) t)) ts, fold next_id ts h,
      l @ map ((#) CHR ''x'') (new_tokens ts h))"
proof (induction ts arbitrary: h l)
  case Nil
  then show ?case by (simp add: new_tokens_def)
next
  case (Cons t ts)
  obtain v where v: "map_of (next_id t h) t = Some v" using next_id_has by blast
  have s: "map_of (fold next_id ts (next_id t h)) t = Some v"
    using fold_next_id_stable[OF v] .
  show ?case
    using v s by (simp add: findId_eq Cons new_tokens_Cons)
qed

text \<open>The transducer that the token loop builds.\<close>

lemma addTokens_eq:
  assumes "length pre = n"
  shows "addTokens toks (int n) h l
           \<lparr>start_state = 0, states = pre @ [\<lparr>final_weight = None, arcs = []\<rparr>]\<rparr> =
         (int (n + length toks), fst (snd (assignIds toks h l)), snd (snd (assignIds toks h l)),
          \<lparr>start_state = 0,
           states = pre @
             map (\<lambda>(i, lab). \<lparr>final_weight = None,
                     arcs = [\<lparr>ilabel = lab, olabel = lab, weight = 0, nextstate = int i + 1\<rparr>]\<rparr>)
               (enumerate n (fst (assignIds toks h l))) @
             [\<lparr>final_weight = None, arcs = []\<rparr>]\<rparr>)"
  using assms
proof (induction toks arbitrary: n pre h l)
  case Nil
  then show ?case by simp
next
  case (Cons t ts)
  obtain lab h1 l1 where f: "findId t h l = (lab, h1, l1)" by (cases "findId t h l") auto
  let ?pre = "pre @ [\<lparr>final_weight = None,
                     arcs = [\<lparr>ilabel = lab, olabel = lab, weight = 0, nextstate = int n + 1\<rparr>]\<rparr>]"
  have a: "AddArc (int n) \<lparr>ilabel = lab, olabel = lab, weight = 0, nextstate = int n + 1\<rparr>
             (AddState \<lparr>start_state = 0, states = pre @ [\<lparr>final_weight = None, arcs = []\<rparr>]\<rparr>)
           = \<lparr>start_state = 0, states = ?pre @ [\<lparr>final_weight = None, arcs = []\<rparr>]\<rparr>"
    using Cons.prems by (simp add: AddArc_def AddState_def nth_append list_update_append)
  have l: "length ?pre = Suc n" using Cons.prems by simp
  have i: "int n + 1 = int (Suc n)" by simp
  show ?case
    using Cons.IH[OF l, of h1 l1] f a
    by (simp add: i split: prod.splits)
qed


lemma fold_next_id_has: "t \<in> set ts \<Longrightarrow> \<exists>v. map_of (fold next_id ts h) t = Some v"
proof (induction ts arbitrary: h)
  case Nil
  then show ?case by simp
next
  case (Cons a ts)
  show ?case
  proof (cases "t = a")
    case True
    obtain v where "map_of (next_id a h) a = Some v" using next_id_has by blast
    then show ?thesis using True fold_next_id_stable by fastforce
  next
    case False
    then show ?thesis using Cons by simp
  qed
qed

lemma new_tokens_append:
  "new_tokens (ts @ us) h = new_tokens ts h @ new_tokens us (fold next_id ts h)"
proof -
  obtain e1 where e1: "fold next_id ts h = h @ e1" using fold_next_id_extends by blast
  obtain e2 where e2: "fold next_id us (h @ e1) = (h @ e1) @ e2" using fold_next_id_extends by blast
  show ?thesis by (simp add: new_tokens_def e1 e2)
qed

lemma first_state:
  "SetStart 0 (AddState new_fst) =
     \<lparr>start_state = 0, states = [] @ [\<lparr>final_weight = None, arcs = []\<rparr>]\<rparr>"
  by (simp add: SetStart_def AddState_def new_fst_def)

lemma SetFinal_linear:
  "SetFinal (int (length labs)) 0
     \<lparr>start_state = 0,
      states =
        map (\<lambda>(i, lab). \<lparr>final_weight = None,
                arcs = [\<lparr>ilabel = lab, olabel = lab, weight = 0, nextstate = int i + 1\<rparr>]\<rparr>)
          (enumerate 0 labs) @
        [\<lparr>final_weight = None, arcs = []\<rparr>]\<rparr> = linear_fst labs"
  by (simp add: SetFinal_def linear_fst_def nth_append list_update_append)

text \<open>One line with a token: its transducer is appended, the table grows by its tokens.\<close>

lemma loadLines_step:
  assumes "tokens line \<noteq> []"
  shows "loadLines file (line # lines) h l st =
           loadLines file lines (fold next_id (tokens line) h)
             (l @ map ((#) CHR ''x'') (new_tokens (tokens line) h))
             (st\<lparr>inputFsts := inputFsts st @
                [Some (linear_fst (map (\<lambda>t. the (map_of (fold next_id (tokens line) h) t))
                                     (tokens line)))]\<rparr>)"
proof -
  have "addTokens (tokens line) (int 0) h l
           \<lparr>start_state = 0, states = [] @ [\<lparr>final_weight = None, arcs = []\<rparr>]\<rparr> =
         (int (0 + length (tokens line)), fst (snd (assignIds (tokens line) h l)),
          snd (snd (assignIds (tokens line) h l)),
          \<lparr>start_state = 0,
           states = [] @
             map (\<lambda>(i, lab). \<lparr>final_weight = None,
                     arcs = [\<lparr>ilabel = lab, olabel = lab, weight = 0, nextstate = int i + 1\<rparr>]\<rparr>)
               (enumerate 0 (fst (assignIds (tokens line) h l))) @
             [\<lparr>final_weight = None, arcs = []\<rparr>]\<rparr>)"
    by (rule addTokens_eq) simp
  then have a: "addTokens (tokens line) 0 h l (SetStart 0 (AddState new_fst)) =
         (int (length (tokens line)), fold next_id (tokens line) h,
          l @ map ((#) CHR ''x'') (new_tokens (tokens line) h),
          \<lparr>start_state = 0,
           states =
             map (\<lambda>(i, lab). \<lparr>final_weight = None,
                     arcs = [\<lparr>ilabel = lab, olabel = lab, weight = 0, nextstate = int i + 1\<rparr>]\<rparr>)
               (enumerate 0 (map (\<lambda>t. the (map_of (fold next_id (tokens line) h) t)) (tokens line))) @
             [\<lparr>final_weight = None, arcs = []\<rparr>]\<rparr>)"
    by (simp add: first_state assignIds_eq)
  have f: "SetFinal (int (length (tokens line))) 0
     \<lparr>start_state = 0,
      states =
        map (\<lambda>(i, lab). \<lparr>final_weight = None,
                arcs = [\<lparr>ilabel = lab, olabel = lab, weight = 0, nextstate = int i + 1\<rparr>]\<rparr>)
          (enumerate 0 (map (\<lambda>t. the (map_of (fold next_id (tokens line) h) t)) (tokens line))) @
        [\<lparr>final_weight = None, arcs = []\<rparr>]\<rparr>
      = linear_fst (map (\<lambda>t. the (map_of (fold next_id (tokens line) h) t)) (tokens line))"
    using SetFinal_linear[of "map (\<lambda>t. the (map_of (fold next_id (tokens line) h) t)) (tokens line)"]
    by simp
  show ?thesis using assms by (simp add: a f del: SetFinal_linear)
qed

lemma loadLines_empty:
  assumes "tokens line = []"
  shows "loadLines file (line # lines) h l st =
           Inl (Exit 1, st\<lparr>cerr := cerr st @
                    [Str ''Empty line found in '', Str file, Endl,
                     Str ''Please ensure that each line in the training file contains at least one symbol.'',
                     Endl]\<rparr>)"
  using assms by simp

declare loadLines.simps [simp del]


lemma lookup_stable:
  assumes "t \<in> set ts"
  shows "the (map_of (fold next_id us (fold next_id ts h)) t) = the (map_of (fold next_id ts h) t)"
proof -
  obtain v where v: "map_of (fold next_id ts h) t = Some v"
    using fold_next_id_has[OF assms] by blast
  show ?thesis using fold_next_id_stable[OF v, of us] v by simp
qed

lemma labels_stable:
  "set xs \<subseteq> set ts \<Longrightarrow>
     map (\<lambda>t. the (map_of (fold next_id ts h) t)) xs =
     map (\<lambda>t. the (map_of (fold next_id us (fold next_id ts h)) t)) xs"
  by (auto simp: lookup_stable subsetD)

lemma loadLines_ok:
  assumes "\<forall>line \<in> set lines. tokens line \<noteq> []"
  shows "loadLines file lines h l st =
           Inr ((fold next_id (concat (map tokens lines)) h,
                 l @ map ((#) CHR ''x'') (new_tokens (concat (map tokens lines)) h)),
                st\<lparr>inputFsts := inputFsts st @
                   map (\<lambda>line. Some (linear_fst
                          (map (\<lambda>t. the (map_of (fold next_id (concat (map tokens lines)) h) t))
                             (tokens line)))) lines\<rparr>)"
  using assms
proof (induction lines arbitrary: h l st)
  case Nil
  then show ?case by (simp add: loadLines.simps new_tokens_def)
next
  case (Cons line lines)
  then have ne: "tokens line \<noteq> []" and rest: "\<forall>line \<in> set lines. tokens line \<noteq> []" by simp_all
  let ?h1 = "fold next_id (tokens line) h"
  let ?us = "concat (map tokens lines)"
  have lab: "map (\<lambda>t. the (map_of ?h1 t)) (tokens line)
           = map (\<lambda>t. the (map_of (fold next_id ?us ?h1) t)) (tokens line)"
    by (simp add: lookup_stable)
  show ?case
    by (simp add: loadLines_step[OF ne] Cons.IH[OF rest] new_tokens_append lab)
qed

lemma loadLines_fail:
  assumes "\<exists>line \<in> set lines. tokens line = []"
  shows "\<exists>st'. loadLines file lines h l st = Inl (Exit 1, st') \<and>
           cerr st' = cerr st @
             [Str ''Empty line found in '', Str file, Endl,
              Str ''Please ensure that each line in the training file contains at least one symbol.'',
              Endl]"
  using assms
proof (induction lines arbitrary: h l st)
  case Nil
  then show ?case by simp
next
  case (Cons line lines)
  show ?case
  proof (cases "tokens line = []")
    case True
    then show ?thesis by (simp add: loadLines_empty)
  next
    case False
    then have "\<exists>line \<in> set lines. tokens line = []" using Cons.prems by auto
    from Cons.IH[OF this, of "fold next_id (tokens line) h"
        "l @ map ((#) CHR ''x'') (new_tokens (tokens line) h)"
        "st\<lparr>inputFsts := inputFsts st @
                [Some (linear_fst (map (\<lambda>t. the (map_of (fold next_id (tokens line) h) t))
                                     (tokens line)))]\<rparr>"]
    show ?thesis by (simp add: loadLines_step[OF False])
  qed
qed

lemma all_lines_Cons:
  "all_lines lib (f # fs) =
     (case file_lines lib f of None \<Rightarrow> [] | Some ls \<Rightarrow> ls) @ all_lines lib fs"
  by (simp add: all_lines_def)

lemma loadFiles_ok:
  assumes "\<forall>line \<in> set (all_lines lib files). tokens line \<noteq> []"
  shows "loadFiles lib files h l st =
           Inr ((fold next_id (concat (map tokens (all_lines lib files))) h,
                 l @ map ((#) CHR ''x'') (new_tokens (concat (map tokens (all_lines lib files))) h)),
                st\<lparr>inputFsts := inputFsts st @
                   map (\<lambda>line. Some (linear_fst
                          (map (\<lambda>t. the (map_of
                                  (fold next_id (concat (map tokens (all_lines lib files))) h) t))
                             (tokens line)))) (all_lines lib files)\<rparr>)"
  using assms
proof (induction files arbitrary: h l st)
  case Nil
  then show ?case by (simp add: all_lines_def new_tokens_def)
next
  case (Cons f fs)
  let ?ls = "case file_lines lib f of None \<Rightarrow> [] | Some ls \<Rightarrow> ls"
  have a: "\<forall>line \<in> set ?ls. tokens line \<noteq> []"
    and b: "\<forall>line \<in> set (all_lines lib fs). tokens line \<noteq> []"
    using Cons.prems by (simp_all add: all_lines_Cons)
  let ?ts = "concat (map tokens ?ls)"
  let ?us = "concat (map tokens (all_lines lib fs))"
  have lab: "map (\<lambda>line. Some (linear_fst (map (\<lambda>t. the (map_of (fold next_id ?ts h) t)) (tokens line)))) ?ls
        = map (\<lambda>line. Some (linear_fst
                (map (\<lambda>t. the (map_of (fold next_id ?us (fold next_id ?ts h)) t)) (tokens line)))) ?ls"
  proof (rule map_cong[OF refl])
    fix line assume "line \<in> set ?ls"
    then have ss: "set (tokens line) \<subseteq> set ?ts" by auto
    show "Some (linear_fst (map (\<lambda>t. the (map_of (fold next_id ?ts h) t)) (tokens line)))
        = Some (linear_fst
                (map (\<lambda>t. the (map_of (fold next_id ?us (fold next_id ?ts h)) t)) (tokens line)))"
      by (rule arg_cong [where f = "\<lambda>x. Some (linear_fst x)"]) (rule labels_stable [OF ss])
  qed
  show ?case
    by (simp add: loadLines_ok[OF a] Cons.IH[OF b] all_lines_Cons new_tokens_append lab)
qed

lemma loadFiles_fail:
  assumes "\<exists>line \<in> set (all_lines lib files). tokens line = []"
  shows "\<exists>st' file. file \<in> set files \<and> loadFiles lib files h l st = Inl (Exit 1, st') \<and>
           cerr st' = cerr st @
             [Str ''Empty line found in '', Str file, Endl,
              Str ''Please ensure that each line in the training file contains at least one symbol.'',
              Endl]"
  using assms
proof (induction files arbitrary: h l st)
  case Nil
  then show ?case by (simp add: all_lines_def)
next
  case (Cons f fs)
  let ?ls = "case file_lines lib f of None \<Rightarrow> [] | Some ls \<Rightarrow> ls"
  show ?case
  proof (cases "\<exists>line \<in> set ?ls. tokens line = []")
    case True
    from loadLines_fail[OF True, of f h l st] show ?thesis by auto
  next
    case False
    then have a: "\<forall>line \<in> set ?ls. tokens line \<noteq> []" by blast
    have "\<exists>line \<in> set (?ls @ all_lines lib fs). tokens line = []"
      using Cons.prems by (simp only: all_lines_Cons)
    then have "\<exists>line \<in> set (all_lines lib fs). tokens line = []"
      using a by (metis Un_iff set_append)
    from Cons.IH[OF this, of "fold next_id (concat (map tokens ?ls)) h"
        "l @ map ((#) CHR ''x'') (new_tokens (concat (map tokens ?ls)) h)"
        "st\<lparr>inputFsts := inputFsts st @
                   map (\<lambda>line. Some (linear_fst
                          (map (\<lambda>t. the (map_of (fold next_id (concat (map tokens ?ls)) h) t))
                             (tokens line)))) ?ls\<rparr>"]
    obtain st' fl where
      m: "fl \<in> set fs"
      and r: "loadFiles lib fs (fold next_id (concat (map tokens ?ls)) h)
               (l @ map ((#) CHR ''x'') (new_tokens (concat (map tokens ?ls)) h))
               (st\<lparr>inputFsts := inputFsts st @
                   map (\<lambda>line. Some (linear_fst
                          (map (\<lambda>t. the (map_of (fold next_id (concat (map tokens ?ls)) h) t))
                             (tokens line)))) ?ls\<rparr>) = Inl (Exit 1, st')"
      and c: "cerr st' = cerr st @
             [Str ''Empty line found in '', Str fl, Endl,
              Str ''Please ensure that each line in the training file contains at least one symbol.'',
              Endl]"
      by auto
    have "loadFiles lib (f # fs) h l st = Inl (Exit 1, st')"
      using r by (simp add: loadLines_ok[OF a])
    moreover have "fl \<in> set (f # fs)" using m by simp
    ultimately show ?thesis using c by blast
  qed
qed

lemma wf_next_id: "wf_table h \<Longrightarrow> wf_table (next_id t h)"
  by (auto simp: wf_table_def next_id_def map_of_eq_None_iff)

lemma wf_fold: "wf_table h \<Longrightarrow> wf_table (fold next_id ts h)"
  by (induction ts arbitrary: h) (simp_all add: wf_next_id)

lemma wf_char_table: "wf_table (char_table toks)"
  unfolding char_table_def by (rule wf_fold) (simp add: wf_table_def upt_rec)

lemma wf_table_inj:
  assumes "wf_table h" "map_of h a = Some v" "map_of h b = Some v"
  shows "a = b"
proof -
  have d: "distinct (map snd h)"
    using assms(1) by (simp add: wf_table_def distinct_map inj_on_def)
  have "(a, v) \<in> set h" "(b, v) \<in> set h" using assms by (auto dest: map_of_SomeD)
  then show ?thesis using d by (metis distinct_map inj_onD snd_conv fst_conv)
qed

lemma char_id_inj:
  "inj_on (char_id toks) (set toks)"
proof (rule inj_onI)
  fix a b assume a: "a \<in> set toks" and b: "b \<in> set toks"
    and e: "char_id toks a = char_id toks b"
  obtain va where va: "map_of (char_table toks) a = Some va"
    using fold_next_id_has[OF a] by (auto simp: char_table_def)
  obtain vb where vb: "map_of (char_table toks) b = Some vb"
    using fold_next_id_has[OF b] by (auto simp: char_table_def)
  have "va = vb" using e va vb by (simp add: char_id_def)
  then show "a = b" using wf_table_inj[OF wf_char_table va] vb by simp
qed


lemma loadText_eq:
  "loadText lib st =
     (case loadFiles lib (inputFiles st) [(''<eps>'', 0), (''<phi>'', 1)]
             [''x<eps>'', ''x<phi>'', ''x<unk>'', ''x</unk>''] st of
        Inl e \<Rightarrow> Inl e
      | Inr ((idHash, idList), st') \<Rightarrow> Inr (idList @ [''w<s>''], st'))"
  by (simp add: loadText_def findId_def)

lemma char_id_fun:
  "char_id toks = (\<lambda>t. the (map_of (fold next_id toks [(''<eps>'', 0), (''<phi>'', 1)]) t))"
  by (rule ext) (simp add: char_id_def char_table_def)




lemma toy_tokens:
  "tokens ''a b'' = [''a'', ''b'']" "tokens ''b c'' = [''b'', ''c'']" "tokens ''a'' = [''a'']"
  "tokens '' '' = []"
  by (simp_all add: tokens_def isspace_def)

lemma toy_lines:
  "all_lines toy_lib [''in.txt''] = [''a b'', ''b c'']"
  "all_lines toy_lib [''bad.txt''] = [''a'', '' '']"
  by (simp_all add: all_lines_def toy_lib_def)

lemma toy_ids:
  "char_id [''a'', ''b'', ''b'', ''c''] ''a'' = 2"
  "char_id [''a'', ''b'', ''b'', ''c''] ''b'' = 3"
  "char_id [''a'', ''b'', ''b'', ''c''] ''c'' = 4"
  by (simp_all add: char_id_def char_table_def next_id_def)



text \<open>
  Claim C6. In text mode, \<^verbatim>\<open>loadText\<close> reads every line of every input file. If some line
  holds no token (it is empty or all white space), the call ends the process with
  \<^verbatim>\<open>exit(1)\<close> after the diagnostic \<^verbatim>\<open>Empty line found in\<close> with the name of an input file;
  this happens inside \<^verbatim>\<open>loadProperties\<close>, and \<^verbatim>\<open>train\<close> is a separate function. Otherwise it
  returns, and it has appended to \<^verbatim>\<open>inputFsts_\<close>, for every line in order, the linear
  transducer of the line: one state per token and one more, one arc per token with the
  token's identifier as input and output label and the weight 0, the last state final
  with the weight 0. The identifier of a token is the same wherever it occurs, and
  different tokens have different identifiers.
\<close>

theorem loadText_lines:
  "(let lines = all_lines lib (inputFiles st); toks = concat (map tokens lines)
    in if \<exists>line \<in> set lines. tokens line = [] then
         \<exists>st' fl. fl \<in> set (inputFiles st) \<and> loadText lib st = Inl (Exit 1, st') \<and>
           cerr st' = cerr st @
             [Str ''Empty line found in '', Str fl, Endl,
              Str ''Please ensure that each line in the training file contains at least one symbol.'',
              Endl]
       else
         \<exists>ids st'. loadText lib st = Inr (ids, st') \<and>
           inputFsts st' = inputFsts st @
             map (\<lambda>line. Some (linear_fst (map (char_id toks) (tokens line)))) lines \<and>
           inj_on (char_id toks) (set toks))"
proof (cases "\<exists>line \<in> set (all_lines lib (inputFiles st)). tokens line = []")
  case True
  from loadFiles_fail[OF True, of "[(''<eps>'', 0), (''<phi>'', 1)]"
      "[''x<eps>'', ''x<phi>'', ''x<unk>'', ''x</unk>'']" st]
  obtain st' fl where "fl \<in> set (inputFiles st)"
    "loadFiles lib (inputFiles st) [(''<eps>'', 0), (''<phi>'', 1)]
             [''x<eps>'', ''x<phi>'', ''x<unk>'', ''x</unk>''] st = Inl (Exit 1, st')"
    "cerr st' = cerr st @
             [Str ''Empty line found in '', Str fl, Endl,
              Str ''Please ensure that each line in the training file contains at least one symbol.'',
              Endl]"
    by blast
  then have "\<exists>st' fl. fl \<in> set (inputFiles st) \<and> loadText lib st = Inl (Exit 1, st') \<and>
           cerr st' = cerr st @
             [Str ''Empty line found in '', Str fl, Endl,
              Str ''Please ensure that each line in the training file contains at least one symbol.'',
              Endl]"
    by (auto simp: loadText_eq)
  then show ?thesis using True by (simp add: Let_def)
next
  case False
  then have ok: "\<forall>line \<in> set (all_lines lib (inputFiles st)). tokens line \<noteq> []" by blast
  let ?toks = "concat (map tokens (all_lines lib (inputFiles st)))"
  have "\<exists>ids st'. loadText lib st = Inr (ids, st') \<and>
           inputFsts st' = inputFsts st @
             map (\<lambda>line. Some (linear_fst (map (char_id ?toks) (tokens line))))
               (all_lines lib (inputFiles st))"
    by (simp add: loadText_eq loadFiles_ok[OF ok] char_id_fun)
  then show ?thesis using False char_id_inj[of ?toks] by (simp add: Let_def)
qed


text \<open>
  The theorem on the small instance: the two lines \<open>a b\<close> and \<open>b c\<close> become the transducers
  of \<open>[2, 3]\<close> and \<open>[3, 4]\<close>; the file with a line of one space ends the process.
\<close>

theorem loadText_lines_witness:
  "(\<exists>ids st'. loadText toy_lib ((LatticeLM 0)\<lparr>inputFiles := [''in.txt'']\<rparr>) = Inr (ids, st') \<and>
      inputFsts st' = [Some (linear_fst [2, 3]), Some (linear_fst [3, 4])]) \<and>
   (\<exists>st'. loadText toy_lib ((LatticeLM 0)\<lparr>inputFiles := [''bad.txt'']\<rparr>) = Inl (Exit 1, st') \<and>
      cerr st' =
        [Str ''Empty line found in '', Str ''bad.txt'', Endl,
         Str ''Please ensure that each line in the training file contains at least one symbol.'',
         Endl])"
  using loadText_lines [of toy_lib "(LatticeLM 0)\<lparr>inputFiles := [''in.txt'']\<rparr>"]
    loadText_lines [of toy_lib "(LatticeLM 0)\<lparr>inputFiles := [''bad.txt'']\<rparr>"]
  by (simp add: toy_lines toy_tokens toy_ids Let_def) (auto simp: LatticeLM_def)



section \<open>Snapshots\<close>

lemma written_names_append [simp]:
  "written_names (xs @ ys) = written_names xs @ written_names ys"
  by (simp add: written_names_def)

lemma written_names_simps [simp]:
  "written_names [] = []"
  "written_names (WriteFile name c # evs) = name # written_names evs"
  "written_names (CalcSentence m ws bases doAdd pr # evs) = written_names evs"
  by (simp_all add: written_names_def)

lemma outputName_given:
  "fileName \<noteq> [] \<Longrightarrow> outputName dflt fileName iter st = fileName @ iter_suffix iter"
  by (simp add: outputName_def iter_suffix_def)

lemma writeLm_names:
  assumes "writeLm lib m symbols off bases fileName iter st = Inr st'" "fileName \<noteq> []"
  shows "written_names (trace st') = written_names (trace st) @ [fileName @ iter_suffix iter]"
    "prefix st' = prefix st" "lexFst st' = lexFst st"
  using assms
  by (auto simp: writeLm_def Let_def outputName_given split: option.splits)

lemma writeSamples_names:
  assumes "writeSamples symbols off fileName iter st = Inr st'" "fileName \<noteq> []"
  shows "written_names (trace st') = written_names (trace st) @ [fileName @ iter_suffix iter]"
    "prefix st' = prefix st" "lexFst st' = lexFst st"
  using assms
  by (auto simp: writeSamples_def Let_def outputName_given split: sum.splits)

lemma writeSymbols_names:
  assumes "writeSymbols lib fileName iter st = Inr st'" "fileName \<noteq> []"
  shows "written_names (trace st') = written_names (trace st) @ [fileName @ iter_suffix iter]"
  using assms
  by (auto simp: writeSymbols_def Let_def outputName_given split: option.splits)

lemma basesLoop_names:
  "basesLoop lib ws st = Inr (bases, st') \<Longrightarrow>
     written_names (trace st') = written_names (trace st) \<and> prefix st' = prefix st \<and>
     lexFst st' = lexFst st"
proof (induction ws arbitrary: st bases)
  case Nil
  then show ?case by simp
next
  case (Cons w ws)
  from Cons.prems obtain pr st1 bs where
    c: "calcSentence lib Unk w (unkBases st) False st = Inr (pr, st1)"
    and r: "basesLoop lib ws st1 = Inr (bs, st')"
    by (auto split: sum.splits)
  from calcSentence_frame[OF c] have f: "lm_frame st st1"
    and t: "trace st1 = trace st @ [CalcSentence Unk w (unkBases st) False pr]" by simp_all
  show ?case using Cons.IH[OF r] t lm_frame_fields(2,12)[OF f] by simp
qed

lemma printSample_names:
  assumes "printSample lib iter st = Inr st'"
  shows "written_names (trace st') =
           written_names (trace st) @ snapshot_names (prefix st) (iter_suffix iter)"
proof -
  from assms obtain lx st1 wb st2 st3 st4 where
    w1: "writeLm lib Unk (lex_getSymbols lib lx) 2 (unkBases st) (prefix st @ ''ulm'') iter st = Inr st1"
    and cb: "calculateWordBases lib st1 = Inr (wb, st2)"
    and w2: "writeLm lib Known (lex_getSymbols lib lx) (unat (2 + unkSymbolSize st2)) wb
               (prefix st2 @ ''wlm'') iter st2 = Inr st3"
    and w3: "writeSamples (lex_getSymbols lib lx) (unat (2 + unkSymbolSize st3))
               (prefix st3 @ ''samp'') iter st3 = Inr st4"
    and w4: "writeSymbols lib (prefix st4 @ ''sym'') iter st4 = Inr st'"
    by (auto simp: printSample_def Let_def split: option.splits sum.splits)
  from cb obtain lx1 where "basesLoop lib (lex_getWords lib lx1) st1 = Inr (wb, st2)"
    by (auto simp: calculateWordBases_def split: option.splits)
  note b = basesLoop_names[OF this]
  note n1 = writeLm_names[OF w1]
  note n2 = writeLm_names[OF w2]
  note n3 = writeSamples_names[OF w3]
  note n4 = writeSymbols_names[OF w4]
  show ?thesis
    using n1 n2 n3 n4 b by (simp add: snapshot_names_def)
qed

lemma int_signed:
  fixes k :: int
  assumes "0 \<le> k" "k < 4294967296"
  shows "(k + 2147483648) mod 4294967296 - 2147483648 = (if k < 2147483648 then k else k - 4294967296)"
proof (cases "k < 2147483648")
  case True
  have "(k + 2147483648) mod 4294967296 = k + 2147483648"
    by (rule mod_pos_pos_trivial) (use assms True in linarith)+
  then show ?thesis using True by simp
next
  case False
  have "(k + 2147483648) mod 4294967296 = (k - 2147483648 + 4294967296) mod 4294967296"
    by (rule arg_cong [where f = "\<lambda>x. x mod 4294967296"]) linarith
  also have "\<dots> = (k - 2147483648) mod 4294967296" by (rule mod_add_self2)
  also have "\<dots> = k - 2147483648"
    by (rule mod_pos_pos_trivial) (use assms False in linarith)+
  finally show ?thesis using False by simp
qed

lemma sint_cases:
  fixes iter :: unsigned
  shows "sint iter = (if unat iter < 2147483648 then int (unat iter) else int (unat iter) - 4294967296)"
proof -
  have u: "0 \<le> uint iter" "uint iter < 4294967296" using uint_lt2p[of iter] by simp_all
  have s: "sint iter = (uint iter + 2147483648) mod 4294967296 - 2147483648"
    by (simp add: sint_uint signed_take_bit_eq_take_bit_shift take_bit_eq_mod)
  have n: "int (unat iter) = uint iter" by simp
  have l: "unat iter < 2147483648 \<longleftrightarrow> uint iter < 2147483648"
    unfolding n[symmetric] by linarith
  show ?thesis unfolding s l n by (rule int_signed [OF u])
qed


lemma iter_suffix_sint:
  fixes iter :: unsigned
  shows "iter_suffix (sint iter) =
           (if unat iter < 2 ^ 31 then CHR ''.'' # decimal (unat iter) else [])"
proof (cases "unat iter < 2147483648")
  case True
  then have "sint iter = int (unat iter)" by (simp only: sint_cases if_True)
  then show ?thesis using True by (simp add: iter_suffix_def show_int_def)
next
  case False
  then have "sint iter = int (unat iter) - 4294967296" by (simp only: sint_cases if_False)
  moreover have "int (unat iter) < 4294967296" using uint_lt2p[of iter] by simp
  ultimately have "sint iter < 0" by linarith
  then show ?thesis using False by (simp add: iter_suffix_def)
qed

lemma due_word:
  fixes iter b r :: unsigned
  shows "iter \<ge> b \<and> (iter - b) mod r = 0 \<longleftrightarrow> snapshot_due (unat iter) (unat b) (unat r)"
proof (cases "b \<le> iter")
  case True
  then have "unat (iter - b) = unat iter - unat b" by (rule unat_sub)
  then show ?thesis
    using True by (simp add: snapshot_due_def word_multiple word_le_nat_alt mod_eq_0_iff_dvd)
next
  case False
  then show ?thesis by (simp add: snapshot_due_def word_le_nat_alt)
qed

lemma toy_printSample:
  "\<exists>st'. printSample toy_lib 3
           (toy_state\<lparr>numBurnIn := 1, sampleRate := 2,
                      cerr := [Str '' Printing sample for iteration '', Num 3, Endl]\<rparr>) = Inr st'"
  by (simp add: printSample_def writeLm_def calculateWordBases_def calcSentence_def
        writeSamples_def writeSymbols_def getLm_def setLm_def Let_def vec_at_def toy_defs)

text \<open>
  Claim C4. With a sample rate that is not 0, whenever the snapshot step of epoch \<open>k\<close>
  returns: if \<open>k \<ge> numBurnIn\<close> and \<open>k - numBurnIn\<close> is a multiple of \<open>sampleRate\<close>, it has written
  exactly four files, in this order: the character model \<^verbatim>\<open>ulm\<close>, the word model \<^verbatim>\<open>wlm\<close>,
  the samples \<^verbatim>\<open>samp\<close> and the symbols \<^verbatim>\<open>sym\<close>, each under the prefix; otherwise it has
  written no file. The names end in \<open>.k\<close> for every \<open>k\<close> below \<open>2^31\<close>. From \<open>2^31\<close> on they carry
  no suffix: \<^verbatim>\<open>printSample\<close> takes an \<^verbatim>\<open>int\<close>, the \<^verbatim>\<open>unsigned\<close> epoch converts to a negative
  number, and the suffix is appended only \<^verbatim>\<open>if(iter >= 0)\<close>.
\<close>

theorem snapshot_when_due:
  assumes rate: "sampleRate st \<noteq> 0"
    and ret: "sampleIfDue lib iter st = Inr st'"
  shows "written_names (trace st') =
           written_names (trace st) @
           (if snapshot_due (unat iter) (unat (numBurnIn st)) (unat (sampleRate st)) then
              snapshot_names (prefix st)
                (if unat iter < 2 ^ 31 then CHR ''.'' # decimal (unat iter) else [])
            else [])"
proof (cases "snapshot_due (unat iter) (unat (numBurnIn st)) (unat (sampleRate st))")
  case True
  then have d: "iter \<ge> numBurnIn st" "(iter - numBurnIn st) mod sampleRate st = 0"
    using due_word[of "numBurnIn st" iter "sampleRate st"] by simp_all
  let ?st1 = "st\<lparr>cerr := cerr st @
                    [Str '' Printing sample for iteration '', Num (uint iter), Endl]\<rparr>"
  have "printSample lib (sint iter) ?st1 = Inr st'"
    using ret rate d by (simp add: sampleIfDue_def)
  from printSample_names[OF this] show ?thesis
    using True by (simp add: iter_suffix_sint)
next
  case False
  then have "\<not> (iter \<ge> numBurnIn st \<and> (iter - numBurnIn st) mod sampleRate st = 0)"
    using due_word[of "numBurnIn st" iter "sampleRate st"] by simp
  then have "st' = st" using ret rate by (auto simp: sampleIfDue_def split: if_splits)
  then show ?thesis using False by simp
qed

text \<open>
  The theorem on the small instance with a burn-in of 1 and a sample rate of 2: epoch 3
  writes the four files with the suffix \<open>.3\<close>, epoch 4 writes nothing.
\<close>

theorem snapshot_when_due_witness:
  "(\<exists>st'. sampleIfDue toy_lib 3 (toy_state\<lparr>numBurnIn := 1, sampleRate := 2\<rparr>) = Inr st' \<and>
      written_names (trace st') = [''out/ulm.3'', ''out/wlm.3'', ''out/samp.3'', ''out/sym.3'']) \<and>
   (\<exists>st'. sampleIfDue toy_lib 4 (toy_state\<lparr>numBurnIn := 1, sampleRate := 2\<rparr>) = Inr st' \<and>
      written_names (trace st') = [])"
proof -
  let ?st = "toy_state\<lparr>numBurnIn := 1, sampleRate := 2\<rparr>"
  obtain st1 where r1: "sampleIfDue toy_lib 3 ?st = Inr st1"
    using toy_printSample by (auto simp: sampleIfDue_def toy_defs)
  have r2: "sampleIfDue toy_lib 4 ?st = Inr ?st"
    by (simp add: sampleIfDue_def toy_defs)
  have f: "trace ?st = []" "prefix ?st = ''out/''" "decimal 3 = ''3''"
    "snapshot_due 3 1 2" "\<not> snapshot_due 4 1 2"
    by (simp_all add: toy_defs decimal.simps snapshot_due_def)
  show ?thesis
    using snapshot_when_due [of ?st toy_lib 3 st1] snapshot_when_due [of ?st toy_lib 4 ?st] r1 r2 f
    by (simp add: snapshot_names_def)
qed

text \<open>
  The suffix is lost in epoch \<open>2^31\<close>, which \<^verbatim>\<open>-burnin -2147483648\<close> makes the first epoch
  with a snapshot: the four files are written under the names without a suffix.
\<close>

theorem snapshot_suffix_lost:
  "word_of_int (atoi ''-2147483648'') = (2147483648 :: unsigned) \<and>
   (\<exists>st'. sampleIfDue toy_lib 2147483648 (toy_state\<lparr>numBurnIn := 2147483648\<rparr>) = Inr st' \<and>
      written_names (trace st') = [''out/ulm'', ''out/wlm'', ''out/samp'', ''out/sym''])"
  by (simp add: atoi_def isspace_def isdigit_def sampleIfDue_def sint_cases
        printSample_def writeLm_def calculateWordBases_def calcSentence_def
        writeSamples_def writeSymbols_def getLm_def setLm_def Let_def vec_at_def toy_defs
        outputName_def)

section \<open>Configuration errors\<close>

lemma parse_frame_refl [simp]: "parse_frame st st"
  by (simp add: parse_frame_def)












lemma ends_with_append [simp]: "ends_with (pre @ ys) ys"
  by (simp add: ends_with_def)



















end
